theory Spec2Isabelle
  imports Main
begin

text \<open>
  The media capture of the coding-session tool: the recorder component (the function
  \<^verbatim>\<open>App\<close> with the state \<^verbatim>\<open>recordedChunks\<close> and \<^verbatim>\<open>previewUrl\<close>, in
  \<^verbatim>\<open>src/tailwind.config.js\<close>), which records a camera or screen stream in chunks, forwards
  the chunks over a socket and assembles them into an artifact; and the capture sessions of
  the components \<^verbatim>\<open>ImprovedVideoChat\<close> and \<^verbatim>\<open>VideoChat\<close> (in \<^verbatim>\<open>src/src/components\<close>).
  Handlers are functions from state to state; every \<^verbatim>\<open>await\<close> splits a handler in two, so
  that other events can come in between.
\<close>

section \<open>Binary data and encoding-profile negotiation\<close>

text \<open>
  A \<^verbatim>\<open>Blob\<close> is its bytes together with a media type; \<^verbatim>\<open>blob.size\<close> is the number of
  bytes. \<^verbatim>\<open>new Blob(parts, { type })\<close> concatenates the parts in order.
\<close>

record blob =
  blob_bytes :: "nat list"
  blob_type :: string

definition blob_size :: "blob \<Rightarrow> nat" where
  "blob_size b = length (blob_bytes b)"

definition new_Blob :: "blob list \<Rightarrow> string \<Rightarrow> blob" where
  "new_Blob parts ty = \<lparr>blob_bytes = concat (map blob_bytes parts), blob_type = ty\<rparr>"

text \<open>
  \<^verbatim>\<open>getMimeType\<close> of the recorder component. The platform predicate
  \<^verbatim>\<open>MediaRecorder.isTypeSupported\<close> is a parameter of the model.
\<close>

definition types :: "string list" where
  "types = [''video/webm;codecs=vp8,opus'',
            ''video/webm;codecs=vp9,opus'',
            ''video/webm;codecs=h264,opus'',
            ''video/mp4'']"

fun getMimeType_loop :: "(string \<Rightarrow> bool) \<Rightarrow> string list \<Rightarrow> string" where
  "getMimeType_loop isTypeSupported [] = ''video/webm''"
| "getMimeType_loop isTypeSupported (ty # rest) =
     (if isTypeSupported ty then ty else getMimeType_loop isTypeSupported rest)"

definition getMimeType :: "(string \<Rightarrow> bool) \<Rightarrow> string" where
  "getMimeType isTypeSupported = getMimeType_loop isTypeSupported types"

section \<open>Platform objects\<close>

text \<open>
  The browser objects the components hold references to. Objects live in stores (lists
  indexed by an identifier) because several references name the same object: the stream
  is held by \<^verbatim>\<open>streamRef\<close>, by the video element and by the recorder.
\<close>

definition lookup :: "'a list \<Rightarrow> nat \<Rightarrow> 'a option" where
  "lookup xs i = (if i < length xs then Some (xs ! i) else None)"

text \<open>A method call on the object with identifier \<open>i\<close>; an identifier that names no object
  changes nothing.\<close>

definition update_at :: "nat \<Rightarrow> ('a \<Rightarrow> 'a) \<Rightarrow> 'a list \<Rightarrow> 'a list" where
  "update_at i f xs = (if i < length xs then xs[i := f (xs ! i)] else xs)"

datatype track_kind = audio | video

datatype track_readyState = live | ended

record track =
  kind :: track_kind
  enabled :: bool
  track_state :: track_readyState

type_synonym media_stream = "track list"

text \<open>\<^verbatim>\<open>track.stop()\<close>\<close>

definition track_stop :: "track \<Rightarrow> track" where
  "track_stop t = t\<lparr>track_state := ended\<rparr>"

datatype ws_readyState = CONNECTING | OPEN | CLOSING | CLOSED

text \<open>
  A \<^verbatim>\<open>WebSocket\<close> created by \<^verbatim>\<open>setupWebSocket\<close>. Its \<^verbatim>\<open>onclose\<close> handler is a closure
  over the constant \<^verbatim>\<open>isRecording\<close> of the render whose \<^verbatim>\<open>setupWebSocket\<close> created it;
  \<open>onclose_isRecording\<close> is that captured value. \<open>wire\<close> lists the messages handed to
  the network.
\<close>

record websocket =
  readyState :: ws_readyState
  onclose_isRecording :: bool
  wire :: "nat list list"

text \<open>\<^verbatim>\<open>ws.close()\<close>: a socket that is connecting or open starts closing; otherwise nothing
  happens.\<close>

definition socket_close :: "websocket \<Rightarrow> websocket" where
  "socket_close ws =
     (if readyState ws = CONNECTING \<or> readyState ws = OPEN
      then ws\<lparr>readyState := CLOSING\<rparr> else ws)"

datatype recorder_state = inactive | recording

text \<open>
  A \<^verbatim>\<open>MediaRecorder\<close> with the handlers \<^verbatim>\<open>startRecording\<close> installs. \<open>chunks\<close> is the
  array \<^verbatim>\<open>const chunks: Blob[] = []\<close> that both handlers close over; \<open>stop_queued\<close> says
  that \<^verbatim>\<open>stop()\<close> has queued the task that fires \<^verbatim>\<open>dataavailable\<close> and \<^verbatim>\<open>stop\<close>.
\<close>

record media_recorder =
  mr_state :: recorder_state
  mr_stream :: nat
  mimeType :: string
  chunks :: "blob list"
  stop_queued :: bool

text \<open>\<^verbatim>\<open>recorder.stop()\<close>: an inactive recorder ignores it; a recording one becomes inactive
  and queues the task that fires \<^verbatim>\<open>dataavailable\<close> and then \<^verbatim>\<open>stop\<close>.\<close>

definition recorder_stop :: "media_recorder \<Rightarrow> media_recorder" where
  "recorder_stop mr =
     (if mr_state mr = inactive then mr else mr\<lparr>mr_state := inactive, stop_queued := True\<rparr>)"

text \<open>A thrown value: an \<^verbatim>\<open>Error\<close> (a \<^verbatim>\<open>DOMException\<close> is one) with name and message, or
  any other value.\<close>

datatype thrown = Error_obj string string | Non_error string

text \<open>\<^verbatim>\<open>ws.send(data)\<close>: throws while connecting, transmits while open, and discards the
  data without an error once the socket is closing or closed.\<close>

definition socket_send :: "nat list \<Rightarrow> websocket \<Rightarrow> thrown + websocket" where
  "socket_send bytes ws =
     (case readyState ws of
        CONNECTING \<Rightarrow> Inl (Error_obj ''InvalidStateError'' [])
      | OPEN \<Rightarrow> Inr (ws\<lparr>wire := wire ws @ [bytes]\<rparr>)
      | CLOSING \<Rightarrow> Inr ws
      | CLOSED \<Rightarrow> Inr ws)"

datatype log_entry = Log string | Log_thrown string thrown

datatype source_kind = webcam | screen

section \<open>The recorder component\<close>

text \<open>
  The state of the recorder component \<^verbatim>\<open>App\<close>: its React state, its refs, the video
  element it renders, and the platform objects and pending asynchronous work around it.
  A reference is \<open>None\<close> for \<^verbatim>\<open>null\<close>. Interval identifiers and object URLs are never
  falsy (identifiers are positive, URLs are non-empty strings), so the source's truthiness
  tests on them are tests against \<^verbatim>\<open>null\<close>. The video element is rendered in every
  state, so \<^verbatim>\<open>videoRef.current\<close> is never \<^verbatim>\<open>null\<close> while the component is mounted.

  A handler that a click starts belongs to the latest render (React renders again before
  the next click is handled), so the state constants it reads are those of the current
  state. A platform callback keeps the constants of the render that installed it; the only
  such constant the callbacks read is the \<^verbatim>\<open>isRecording\<close> in the socket's \<^verbatim>\<open>onclose\<close>.
\<close>

record app =
  isRecording :: bool
  recordingType :: "source_kind option"
  recordedChunks :: "blob list"
  previewUrl :: "nat option"
  recordingDuration :: nat
  mediaRecorderRef :: "nat option"
  streamRef :: "nat option"
  timerIntervalRef :: "nat option"
  websocketRef :: "nat option"
  video_srcObject :: "nat option"
  video_muted :: bool
  video_src :: "nat option"
  recorders :: "media_recorder list"
  streams :: "media_stream list"
  sockets :: "websocket list"
  object_urls :: "blob option list"
  intervals :: "nat list"
  next_interval :: nat
  timeouts :: "(nat \<times> bool) list"
  media_requests :: "source_kind list"
  conversions :: "blob list"
  downloads :: "(nat \<times> blob) list"
  rejections :: "thrown list"
  console :: "log_entry list"

text \<open>The component as first mounted (the timer effect has run once with
  \<^verbatim>\<open>isRecording = false\<close>).\<close>

definition initial_app :: app where
  "initial_app = \<lparr>isRecording = False, recordingType = None, recordedChunks = [],
     previewUrl = None, recordingDuration = 0, mediaRecorderRef = None, streamRef = None,
     timerIntervalRef = None, websocketRef = None, video_srcObject = None,
     video_muted = False, video_src = None, recorders = [], streams = [], sockets = [],
     object_urls = [], intervals = [], next_interval = 1, timeouts = [],
     media_requests = [], conversions = [], downloads = [], rejections = [], console = []\<rparr>"

subsection \<open>Platform operations\<close>

definition console_log :: "string \<Rightarrow> app \<Rightarrow> app" where
  "console_log msg st = st\<lparr>console := console st @ [Log msg]\<rparr>"

definition console_error :: "string \<Rightarrow> thrown \<Rightarrow> app \<Rightarrow> app" where
  "console_error msg e st = st\<lparr>console := console st @ [Log_thrown msg e]\<rparr>"

definition createObjectURL :: "blob \<Rightarrow> app \<Rightarrow> nat \<times> app" where
  "createObjectURL b st =
     (length (object_urls st), st\<lparr>object_urls := object_urls st @ [Some b]\<rparr>)"

definition revokeObjectURL :: "nat \<Rightarrow> app \<Rightarrow> app" where
  "revokeObjectURL u st = st\<lparr>object_urls := (object_urls st)[u := None]\<rparr>"

definition clearInterval :: "nat \<Rightarrow> app \<Rightarrow> app" where
  "clearInterval t st = st\<lparr>intervals := removeAll t (intervals st)\<rparr>"

text \<open>\<^verbatim>\<open>stream.getTracks().forEach(track => track.stop())\<close>\<close>

definition stop_tracks :: "nat \<Rightarrow> app \<Rightarrow> app" where
  "stop_tracks s st = st\<lparr>streams := update_at s (map track_stop) (streams st)\<rparr>"

definition ws_close :: "nat \<Rightarrow> app \<Rightarrow> app" where
  "ws_close w st = st\<lparr>sockets := update_at w socket_close (sockets st)\<rparr>"

definition ws_send :: "nat \<Rightarrow> nat list \<Rightarrow> app \<Rightarrow> thrown + app" where
  "ws_send w bytes st =
     (case lookup (sockets st) w of
        None \<Rightarrow> Inr st
      | Some ws \<Rightarrow>
          (case socket_send bytes ws of
             Inl e \<Rightarrow> Inl e
           | Inr ws1 \<Rightarrow> Inr (st\<lparr>sockets := (sockets st)[w := ws1]\<rparr>)))"

definition mr_stop :: "nat \<Rightarrow> app \<Rightarrow> app" where
  "mr_stop r st = st\<lparr>recorders := update_at r recorder_stop (recorders st)\<rparr>"

subsection \<open>The timer effect\<close>

text \<open>
  The effect with dependency \<^verbatim>\<open>[isRecording]\<close>. React runs the previous effect's cleanup
  and then the effect after a render in which \<^verbatim>\<open>isRecording\<close> changed; the model runs both
  as part of the state update.
\<close>

definition timer_cleanup :: "app \<Rightarrow> app" where
  "timer_cleanup st =
     (case timerIntervalRef st of None \<Rightarrow> st | Some t \<Rightarrow> clearInterval t st)"

definition timer_effect :: "app \<Rightarrow> app" where
  "timer_effect st =
     (if isRecording st
      then st\<lparr>intervals := intervals st @ [next_interval st],
              timerIntervalRef := Some (next_interval st),
              next_interval := Suc (next_interval st)\<rparr>
      else (timer_cleanup st)\<lparr>recordingDuration := 0\<rparr>)"

definition setIsRecording :: "bool \<Rightarrow> app \<Rightarrow> app" where
  "setIsRecording b st =
     (if b = isRecording st then st
      else timer_effect (timer_cleanup (st\<lparr>isRecording := b\<rparr>)))"

text \<open>The interval callback \<^verbatim>\<open>setRecordingDuration(prev => prev + 1)\<close>.\<close>

definition interval_tick :: "app \<Rightarrow> app" where
  "interval_tick st = st\<lparr>recordingDuration := recordingDuration st + 1\<rparr>"

subsection \<open>The live chunk transport\<close>

text \<open>
  \<^verbatim>\<open>setupWebSocket\<close>, as defined in a render whose \<^verbatim>\<open>isRecording\<close> is \<open>isRecording_r\<close>.
  The handlers it installs, and the \<^verbatim>\<open>setupWebSocket\<close> that \<^verbatim>\<open>reconnect\<close> calls, belong to
  that same render.
\<close>

definition setupWebSocket :: "bool \<Rightarrow> app \<Rightarrow> app" where
  "setupWebSocket isRecording_r st =
     st\<lparr>sockets := sockets st @
            [\<lparr>readyState = CONNECTING, onclose_isRecording = isRecording_r, wire = []\<rparr>],
        websocketRef := Some (length (sockets st))\<rparr>"

text \<open>\<^verbatim>\<open>reconnect\<close>: one timeout of 3000 ms that will call \<^verbatim>\<open>setupWebSocket\<close> again.\<close>

definition reconnect :: "bool \<Rightarrow> app \<Rightarrow> app" where
  "reconnect isRecording_r st = st\<lparr>timeouts := timeouts st @ [(3000, isRecording_r)]\<rparr>"

definition ws_onopen :: "nat \<Rightarrow> app \<Rightarrow> app" where
  "ws_onopen w st = console_log ''WebSocket connection established'' st"

definition ws_onerror :: "nat \<Rightarrow> thrown \<Rightarrow> app \<Rightarrow> app" where
  "ws_onerror w e st = console_error ''WebSocket error:'' e st"

definition ws_onclose :: "nat \<Rightarrow> app \<Rightarrow> app" where
  "ws_onclose w st =
     (let st1 = console_log ''WebSocket connection closed, attempting to reconnect...'' st
      in case lookup (sockets st1) w of
           None \<Rightarrow> st1
         | Some ws \<Rightarrow>
             if onclose_isRecording ws then reconnect (onclose_isRecording ws) st1 else st1)"

text \<open>The callback of a reconnect timeout.\<close>

definition reconnect_timeout :: "bool \<Rightarrow> app \<Rightarrow> app" where
  "reconnect_timeout isRecording_r st =
     setupWebSocket isRecording_r (console_log ''Attempting to reconnect WebSocket...'' st)"

subsection \<open>Recorder handlers\<close>

text \<open>\<^verbatim>\<open>chunks.push(e.data)\<close> on the array of recorder \<open>r\<close>.\<close>

definition push_chunk :: "nat \<Rightarrow> blob \<Rightarrow> app \<Rightarrow> app" where
  "push_chunk r b st =
     st\<lparr>recorders := update_at r (\<lambda>mr. mr\<lparr>chunks := chunks mr @ [b]\<rparr>) (recorders st)\<rparr>"

text \<open>
  \<^verbatim>\<open>mediaRecorder.ondataavailable\<close> up to its \<^verbatim>\<open>await\<close>: the handler of recorder \<open>r\<close>
  receives the blob \<open>b\<close>. When the socket is open the handler suspends on
  \<^verbatim>\<open>e.data.arrayBuffer()\<close>; the pending conversion is recorded in \<open>conversions\<close>.
\<close>

definition socket_is_open :: "app \<Rightarrow> bool" where
  "socket_is_open st =
     (case websocketRef st of
        None \<Rightarrow> False
      | Some w \<Rightarrow>
          (case lookup (sockets st) w of
             None \<Rightarrow> False
           | Some ws \<Rightarrow> readyState ws = OPEN))"

definition ondataavailable :: "nat \<Rightarrow> blob \<Rightarrow> app \<Rightarrow> app" where
  "ondataavailable r b st =
     (if blob_size b > 0 then
        (let st1 = push_chunk r b st
         in if socket_is_open st1 then st1\<lparr>conversions := conversions st1 @ [b]\<rparr> else st1)
      else st)"

text \<open>
  The rest of the handler, run when the conversion has finished:
  \<^verbatim>\<open>websocketRef.current.send(arrayBuffer)\<close>. The reference is read again here. An
  exception thrown by \<^verbatim>\<open>send\<close> rejects the promise of the handler, which nobody awaits.
\<close>

definition ondataavailable_resume :: "blob \<Rightarrow> app \<Rightarrow> app" where
  "ondataavailable_resume b st =
     (case websocketRef st of
        None \<Rightarrow> st\<lparr>rejections := rejections st @ [Error_obj ''TypeError'' []]\<rparr>
      | Some w \<Rightarrow>
          (case ws_send w (blob_bytes b) st of
             Inl e \<Rightarrow> st\<lparr>rejections := rejections st @ [e]\<rparr>
           | Inr st1 \<Rightarrow> st1))"

text \<open>\<^verbatim>\<open>mediaRecorder.onstop\<close> of recorder \<open>r\<close>.\<close>

definition onstop :: "(string \<Rightarrow> bool) \<Rightarrow> nat \<Rightarrow> app \<Rightarrow> app" where
  "onstop isTypeSupported r st =
     (let cs = (case lookup (recorders st) r of None \<Rightarrow> [] | Some mr \<Rightarrow> chunks mr);
          st1 = st\<lparr>recordedChunks := cs\<rparr>;
          st2 = (case streamRef st1 of None \<Rightarrow> st1 | Some s \<Rightarrow> stop_tracks s st1);
          st3 = st2\<lparr>video_srcObject := None, video_muted := False\<rparr>;
          st4 = (case websocketRef st3 of None \<Rightarrow> st3 | Some w \<Rightarrow> ws_close w st3);
          (url, st5) = createObjectURL (new_Blob cs (getMimeType isTypeSupported)) st4
      in st5\<lparr>previewUrl := Some url, video_src := Some url\<rparr>)"

subsection \<open>User operations\<close>

text \<open>
  \<^verbatim>\<open>startRecording(type)\<close> up to its \<^verbatim>\<open>await\<close>. The handler belongs to the current render,
  so the \<^verbatim>\<open>previewUrl\<close> and \<^verbatim>\<open>isRecording\<close> it reads are those of the state at the click.
  The request for the stream is left pending in \<open>media_requests\<close>.
\<close>

definition startRecording_request :: "source_kind \<Rightarrow> app \<Rightarrow> app" where
  "startRecording_request type st =
     (let st1 = (case previewUrl st of
                   None \<Rightarrow> st
                 | Some u \<Rightarrow> (revokeObjectURL u st)\<lparr>previewUrl := None\<rparr>);
          st2 = setupWebSocket (isRecording st) st1
      in st2\<lparr>media_requests := media_requests st2 @ [type]\<rparr>)"

text \<open>
  The rest of \<^verbatim>\<open>startRecording\<close>, run when the platform settles the request: \<open>Inl\<close> is
  the rejection (permission denied, no device), \<open>Inr\<close> the tracks of the new stream. The
  \<^verbatim>\<open>MediaRecorder\<close> constructor throws when the media type is not supported; every
  exception ends in the \<^verbatim>\<open>catch\<close>, which logs it.
\<close>

definition startRecording_resume ::
  "(string \<Rightarrow> bool) \<Rightarrow> source_kind \<Rightarrow> thrown + media_stream \<Rightarrow> app \<Rightarrow> app" where
  "startRecording_resume isTypeSupported type result st =
     (case result of
        Inl error \<Rightarrow> console_error ''Error accessing media devices:'' error st
      | Inr tracks \<Rightarrow>
          (let s = length (streams st);
               st1 = st\<lparr>streams := streams st @ [tracks], streamRef := Some s,
                        video_srcObject := Some s, video_muted := True\<rparr>;
               mime = getMimeType isTypeSupported
           in if \<not> isTypeSupported mime
              then console_error ''Error accessing media devices:''
                     (Error_obj ''NotSupportedError'' []) st1
              else
                (let r = length (recorders st1);
                     st2 = st1\<lparr>recorders := recorders st1 @
                                 [\<lparr>mr_state = recording, mr_stream = s, mimeType = mime,
                                   chunks = [], stop_queued = False\<rparr>],
                               mediaRecorderRef := Some r\<rparr>
                 in (setIsRecording True st2)\<lparr>recordingType := Some type\<rparr>)))"

text \<open>A start whose request is settled before anything else happens.\<close>

definition startRecording ::
  "(string \<Rightarrow> bool) \<Rightarrow> source_kind \<Rightarrow> thrown + media_stream \<Rightarrow> app \<Rightarrow> app" where
  "startRecording isTypeSupported type result st =
     (let st1 = startRecording_request type st
      in startRecording_resume isTypeSupported type result
           (st1\<lparr>media_requests := butlast (media_requests st1)\<rparr>))"

definition stopRecording :: "app \<Rightarrow> app" where
  "stopRecording st =
     (case mediaRecorderRef st of
        None \<Rightarrow> st
      | Some r \<Rightarrow>
          if isRecording st
          then (setIsRecording False (mr_stop r st))\<lparr>recordingType := None\<rparr>
          else st)"

text \<open>\<^verbatim>\<open>downloadRecording\<close>; \<open>now\<close> is \<^verbatim>\<open>Date.now()\<close>, which names the file.\<close>

definition downloadRecording :: "(string \<Rightarrow> bool) \<Rightarrow> nat \<Rightarrow> app \<Rightarrow> app" where
  "downloadRecording isTypeSupported now st =
     (if length (recordedChunks st) = 0 then st
      else
        (let b = new_Blob (recordedChunks st) (getMimeType isTypeSupported);
             (url, st1) = createObjectURL b st;
             st2 = st1\<lparr>downloads := downloads st1 @ [(now, b)]\<rparr>
         in revokeObjectURL url st2))"

definition resetRecording :: "app \<Rightarrow> app" where
  "resetRecording st =
     (let st1 = (case previewUrl st of None \<Rightarrow> st | Some u \<Rightarrow> revokeObjectURL u st)
      in st1\<lparr>previewUrl := None, recordedChunks := [], video_src := None\<rparr>)"

subsection \<open>What the component renders\<close>

text \<open>
  The three groups of buttons of the component are shown under the conditions
  \<^verbatim>\<open>!isRecording && !previewUrl\<close>, \<^verbatim>\<open>isRecording\<close> and \<^verbatim>\<open>previewUrl\<close>. They give the
  status of the recording state.
\<close>

datatype status = Idle | Recording | Stopped

definition status_of :: "app \<Rightarrow> status" where
  "status_of st =
     (if isRecording st then Recording
      else if previewUrl st \<noteq> None then Stopped
      else Idle)"

datatype status_line =
    Recording_line "source_kind option" nat
  | Preview_ready
  | Recording_complete
  | Ready_to_record

text \<open>Everything in the rendered output that depends on the state. The timer overlay and
  the status line show \<^verbatim>\<open>formatTime(recordingDuration)\<close>, kept here as the number of
  seconds.\<close>

record view =
  timer_overlay :: "nat option"
  start_buttons :: bool
  stop_button :: bool
  preview_buttons :: bool
  video_autoPlay :: bool
  video_controls :: bool
  status_text :: status_line

definition render :: "app \<Rightarrow> view" where
  "render st =
     \<lparr>timer_overlay = (if isRecording st then Some (recordingDuration st) else None),
      start_buttons = (\<not> isRecording st \<and> previewUrl st = None),
      stop_button = isRecording st,
      preview_buttons = (previewUrl st \<noteq> None),
      video_autoPlay = isRecording st,
      video_controls = (previewUrl st \<noteq> None),
      status_text =
        (if isRecording st then Recording_line (recordingType st) (recordingDuration st)
         else if previewUrl st \<noteq> None then Preview_ready
         else if length (recordedChunks st) > 0 then Recording_complete
         else Ready_to_record)\<rparr>"

subsection \<open>Events\<close>

text \<open>
  Everything that can happen to a mounted component: a click on a button that is shown, or
  a callback from the platform. \<open>step\<close> is \<open>None\<close> when the event cannot happen in the
  state. \<^verbatim>\<open>playPreview\<close> only calls \<^verbatim>\<open>play()\<close> on the video element and changes nothing
  of the state.
\<close>

datatype event =
    Click_record source_kind
  | Media_settled nat "thrown + media_stream"
  | Click_stop
  | Click_reset
  | Click_download nat
  | Click_play
  | Interval_fired nat
  | Recorder_timeslice nat blob
  | Recorder_stop_task nat blob
  | Recorder_source_ended nat blob
  | Conversion_done nat
  | Socket_opened nat
  | Socket_error nat thrown
  | Socket_closed nat
  | Timeout_fired nat

definition remove_nth :: "nat \<Rightarrow> 'a list \<Rightarrow> 'a list" where
  "remove_nth i xs = take i xs @ drop (Suc i) xs"

text \<open>The task queued by \<^verbatim>\<open>recorder.stop()\<close>: \<^verbatim>\<open>dataavailable\<close> with the data gathered
  since the last chunk, then \<^verbatim>\<open>stop\<close>.\<close>

definition recorder_stop_task :: "(string \<Rightarrow> bool) \<Rightarrow> nat \<Rightarrow> blob \<Rightarrow> app \<Rightarrow> app" where
  "recorder_stop_task isTypeSupported r b st =
     onstop isTypeSupported r
       (ondataavailable r b
         (st\<lparr>recorders := update_at r (\<lambda>mr. mr\<lparr>stop_queued := False\<rparr>) (recorders st)\<rparr>))"

text \<open>All tracks of the stream of a recording recorder end (the device is unplugged, the
  user ends screen sharing): the platform stops the recorder as \<^verbatim>\<open>stop()\<close> would.\<close>

definition recorder_source_ended :: "(string \<Rightarrow> bool) \<Rightarrow> nat \<Rightarrow> blob \<Rightarrow> app \<Rightarrow> app" where
  "recorder_source_ended isTypeSupported r b st =
     (case lookup (recorders st) r of
        None \<Rightarrow> st
      | Some mr \<Rightarrow>
          onstop isTypeSupported r
            (ondataavailable r b
              (stop_tracks (mr_stream mr)
                (st\<lparr>recorders := update_at r (\<lambda>m. m\<lparr>mr_state := inactive\<rparr>) (recorders st)\<rparr>))))"

fun step :: "(string \<Rightarrow> bool) \<Rightarrow> event \<Rightarrow> app \<Rightarrow> app option" where
  "step supported (Click_record type) st =
     (if \<not> isRecording st \<and> previewUrl st = None
      then Some (startRecording_request type st) else None)"
| "step supported (Media_settled i result) st =
     (if i < length (media_requests st)
      then Some (startRecording_resume supported (media_requests st ! i) result
                   (st\<lparr>media_requests := remove_nth i (media_requests st)\<rparr>))
      else None)"
| "step supported Click_stop st =
     (if isRecording st then Some (stopRecording st) else None)"
| "step supported Click_reset st =
     (if previewUrl st \<noteq> None then Some (resetRecording st) else None)"
| "step supported (Click_download now) st =
     (if previewUrl st \<noteq> None then Some (downloadRecording supported now st) else None)"
| "step supported Click_play st =
     (if previewUrl st \<noteq> None then Some st else None)"
| "step supported (Interval_fired t) st =
     (if t \<in> set (intervals st) then Some (interval_tick st) else None)"
| "step supported (Recorder_timeslice r b) st =
     (case lookup (recorders st) r of
        None \<Rightarrow> None
      | Some mr \<Rightarrow> if mr_state mr = recording then Some (ondataavailable r b st) else None)"
| "step supported (Recorder_stop_task r b) st =
     (case lookup (recorders st) r of
        None \<Rightarrow> None
      | Some mr \<Rightarrow> if stop_queued mr then Some (recorder_stop_task supported r b st) else None)"
| "step supported (Recorder_source_ended r b) st =
     (case lookup (recorders st) r of
        None \<Rightarrow> None
      | Some mr \<Rightarrow>
          if mr_state mr = recording then Some (recorder_source_ended supported r b st) else None)"
| "step supported (Conversion_done i) st =
     (if i < length (conversions st)
      then Some (ondataavailable_resume (conversions st ! i)
                   (st\<lparr>conversions := remove_nth i (conversions st)\<rparr>))
      else None)"
| "step supported (Socket_opened w) st =
     (case lookup (sockets st) w of
        None \<Rightarrow> None
      | Some ws \<Rightarrow>
          if readyState ws = CONNECTING
          then Some (ws_onopen w
                 (st\<lparr>sockets := update_at w (\<lambda>ws. ws\<lparr>readyState := OPEN\<rparr>) (sockets st)\<rparr>))
          else None)"
| "step supported (Socket_error w e) st =
     (case lookup (sockets st) w of
        None \<Rightarrow> None
      | Some ws \<Rightarrow> if readyState ws \<noteq> CLOSED then Some (ws_onerror w e st) else None)"
| "step supported (Socket_closed w) st =
     (case lookup (sockets st) w of
        None \<Rightarrow> None
      | Some ws \<Rightarrow>
          if readyState ws \<noteq> CLOSED
          then Some (ws_onclose w
                 (st\<lparr>sockets := update_at w (\<lambda>ws. ws\<lparr>readyState := CLOSED\<rparr>) (sockets st)\<rparr>))
          else None)"
| "step supported (Timeout_fired i) st =
     (if i < length (timeouts st)
      then Some (reconnect_timeout (snd (timeouts st ! i))
                   (st\<lparr>timeouts := remove_nth i (timeouts st)\<rparr>))
      else None)"

inductive reachable :: "(string \<Rightarrow> bool) \<Rightarrow> app \<Rightarrow> bool" for supported :: "string \<Rightarrow> bool" where
  reachable_initial: "reachable supported initial_app"
| reachable_step: "reachable supported st \<Longrightarrow> step supported ev st = Some st' \<Longrightarrow> reachable supported st'"

text \<open>The state after a list of events, from left to right; \<open>None\<close> if one of them cannot
  happen.\<close>

fun run :: "(string \<Rightarrow> bool) \<Rightarrow> event list \<Rightarrow> app \<Rightarrow> app option" where
  "run supported [] st = Some st"
| "run supported (ev # evs) st =
     (case step supported ev st of None \<Rightarrow> None | Some st1 \<Rightarrow> run supported evs st1)"

text \<open>
  The chunk buffers. While a recording runs, chunks are pushed on the array \<open>chunks\<close> of
  the recorder's handlers; \<^verbatim>\<open>onstop\<close> hands that array to the React state
  \<^verbatim>\<open>recordedChunks\<close>. \<open>recorder_buffer\<close> is the array of the recorder in
  \<^verbatim>\<open>mediaRecorderRef\<close>.
\<close>

definition recorder_buffer :: "app \<Rightarrow> blob list" where
  "recorder_buffer st =
     (case mediaRecorderRef st of
        None \<Rightarrow> []
      | Some r \<Rightarrow> (case lookup (recorders st) r of None \<Rightarrow> [] | Some mr \<Rightarrow> chunks mr))"

text \<open>A run of cadence ticks of recorder \<open>r\<close>, delivering the chunks of a list in order.\<close>

fun ticks :: "nat \<Rightarrow> blob list \<Rightarrow> app \<Rightarrow> app" where
  "ticks r [] st = st"
| "ticks r (b # bs) st = ticks r bs (ondataavailable r b st)"

section \<open>The video chat components\<close>

text \<open>
  \<^verbatim>\<open>ImprovedVideoChat\<close>: the capture session next to the code editor. Its React state
  (\<open>i_isRecording\<close> is \<^verbatim>\<open>isRecording\<close>, and so on), its refs, the video element and the
  platform objects. Only the state that the capture session uses is modelled; the code
  editor's state is independent of it. The video element is rendered with
  \<^verbatim>\<open>muted={isMuted}\<close>: React writes the element's \<^verbatim>\<open>muted\<close> property when the value of
  \<^verbatim>\<open>isMuted\<close> changes from one render to the next, and leaves it alone otherwise.
\<close>

record improved_chat =
  i_isRecording :: bool
  i_recordingTime :: nat
  i_isMuted :: bool
  i_streamError :: "string option"
  i_streamRef :: "nat option"
  i_timerRef :: "nat option"
  i_video_srcObject :: "nat option"
  i_video_muted :: bool
  i_streams :: "media_stream list"
  i_intervals :: "nat list"
  i_next_interval :: nat
  i_console :: "log_entry list"

definition initial_improved_chat :: improved_chat where
  "initial_improved_chat = \<lparr>i_isRecording = False, i_recordingTime = 0, i_isMuted = False,
     i_streamError = None, i_streamRef = None, i_timerRef = None, i_video_srcObject = None,
     i_video_muted = False, i_streams = [], i_intervals = [], i_next_interval = 1,
     i_console = []\<rparr>"

text \<open>The timer effect of \<^verbatim>\<open>ImprovedVideoChat\<close>, run with the state update as for the
  recorder component; it does not reset the time.\<close>

definition i_timer_cleanup :: "improved_chat \<Rightarrow> improved_chat" where
  "i_timer_cleanup st =
     (case i_timerRef st of
        None \<Rightarrow> st
      | Some t \<Rightarrow> st\<lparr>i_intervals := removeAll t (i_intervals st)\<rparr>)"

definition i_timer_effect :: "improved_chat \<Rightarrow> improved_chat" where
  "i_timer_effect st =
     (if i_isRecording st
      then st\<lparr>i_intervals := i_intervals st @ [i_next_interval st],
              i_timerRef := Some (i_next_interval st),
              i_next_interval := Suc (i_next_interval st)\<rparr>
      else i_timer_cleanup st)"

definition i_setIsRecording :: "bool \<Rightarrow> improved_chat \<Rightarrow> improved_chat" where
  "i_setIsRecording b st =
     (if b = i_isRecording st then st
      else i_timer_effect (i_timer_cleanup (st\<lparr>i_isRecording := b\<rparr>)))"

text \<open>\<^verbatim>\<open>setIsMuted(b)\<close>, with the write of the rendered \<^verbatim>\<open>muted\<close> property that follows a
  change.\<close>

definition i_setIsMuted :: "bool \<Rightarrow> improved_chat \<Rightarrow> improved_chat" where
  "i_setIsMuted b st =
     (if b = i_isMuted st then st else st\<lparr>i_isMuted := b, i_video_muted := b\<rparr>)"

definition stopMediaTracks :: "improved_chat \<Rightarrow> improved_chat" where
  "stopMediaTracks st =
     (case i_streamRef st of
        None \<Rightarrow> st
      | Some s \<Rightarrow> st\<lparr>i_streams := update_at s (map track_stop) (i_streams st),
                     i_streamRef := None\<rparr>)"



text \<open>\<^verbatim>\<open>err instanceof Error ? err.message : "Failed to access camera"\<close>\<close>

definition error_message :: "thrown \<Rightarrow> string" where
  "error_message err =
     (case err of Error_obj name message \<Rightarrow> message | Non_error v \<Rightarrow> ''Failed to access camera'')"

text \<open>\<^verbatim>\<open>startRecording\<close> of \<^verbatim>\<open>ImprovedVideoChat\<close> up to its \<^verbatim>\<open>await\<close>, and the rest of it
  once the platform has settled the request.\<close>

definition i_startRecording_request :: "improved_chat \<Rightarrow> improved_chat" where
  "i_startRecording_request st = st\<lparr>i_streamError := None\<rparr>"

definition i_startRecording_resume :: "thrown + media_stream \<Rightarrow> improved_chat \<Rightarrow> improved_chat" where
  "i_startRecording_resume result st =
     (case result of
        Inl err \<Rightarrow>
          st\<lparr>i_console := i_console st @ [Log_thrown ''Error accessing camera:'' err],
             i_streamError := Some (error_message err)\<rparr>
      | Inr tracks \<Rightarrow>
          (let s = length (i_streams st);
               st1 = st\<lparr>i_streams := i_streams st @ [tracks], i_streamRef := Some s,
                        i_video_srcObject := Some s, i_video_muted := True\<rparr>
           in i_setIsRecording True st1))"

definition i_startRecording :: "thrown + media_stream \<Rightarrow> improved_chat \<Rightarrow> improved_chat" where
  "i_startRecording result st = i_startRecording_resume result (i_startRecording_request st)"

definition i_stopRecording :: "improved_chat \<Rightarrow> improved_chat" where
  "i_stopRecording st =
     (let st1 = stopMediaTracks st;
          st2 = st1\<lparr>i_video_srcObject := None\<rparr>;
          st3 = i_setIsRecording False st2;
          st4 = st3\<lparr>i_recordingTime := 0\<rparr>
      in i_setIsMuted False st4)"

text \<open>
  The overlay over the video: while not recording, the camera error if \<^verbatim>\<open>streamError\<close> is
  truthy (neither \<^verbatim>\<open>null\<close> nor the empty string), and the camera icon otherwise. The
  result is the message that is shown, if one is.
\<close>

definition error_overlay :: "improved_chat \<Rightarrow> string option" where
  "error_overlay st =
     (if \<not> i_isRecording st
      then (case i_streamError st of
              None \<Rightarrow> None
            | Some message \<Rightarrow> if message \<noteq> [] then Some message else None)
      else None)"




section \<open>Invariants\<close>

text \<open>
  What holds of the platform objects in every state the component can reach: buffered and
  forwarded chunks are never empty, every recorder was created with the negotiated media
  type, no socket's \<^verbatim>\<open>onclose\<close> closure has captured a true \<^verbatim>\<open>isRecording\<close>, and no
  reconnect is pending.
\<close>

definition nonempty :: "blob \<Rightarrow> bool" where
  "nonempty b \<longleftrightarrow> 0 < blob_size b"

definition recorder_ok :: "(string \<Rightarrow> bool) \<Rightarrow> media_recorder \<Rightarrow> bool" where
  "recorder_ok supported mr \<longleftrightarrow>
     list_all nonempty (chunks mr) \<and> mimeType mr = getMimeType supported"

definition socket_ok :: "websocket \<Rightarrow> bool" where
  "socket_ok ws \<longleftrightarrow> \<not> onclose_isRecording ws \<and> list_all (\<lambda>m. m \<noteq> []) (wire ws)"

definition objects_inv :: "(string \<Rightarrow> bool) \<Rightarrow> app \<Rightarrow> bool" where
  "objects_inv supported st \<longleftrightarrow>
     list_all (recorder_ok supported) (recorders st) \<and>
     list_all socket_ok (sockets st) \<and>
     list_all nonempty (recordedChunks st) \<and>
     list_all nonempty (conversions st) \<and>
     timeouts st = []"

text \<open>
  The timer and the preview: the only interval that can be running is the one in
  \<^verbatim>\<open>timerIntervalRef\<close>, none runs and the duration is zero while not recording, and recorded
  chunks are kept only together with a preview.
\<close>

definition timer_inv :: "app \<Rightarrow> bool" where
  "timer_inv st \<longleftrightarrow>
     set (intervals st) \<subseteq> set_option (timerIntervalRef st) \<and>
     (\<not> isRecording st \<longrightarrow> intervals st = [] \<and> recordingDuration st = 0) \<and>
     (previewUrl st = None \<longrightarrow> recordedChunks st = [])"

section \<open>Example data\<close>

definition all_supported :: "string \<Rightarrow> bool" where
  "all_supported ty = True"

definition camera_tracks :: media_stream where
  "camera_tracks = [\<lparr>kind = audio, enabled = True, track_state = live\<rparr>,
                    \<lparr>kind = video, enabled = True, track_state = live\<rparr>]"

definition display_tracks :: media_stream where
  "display_tracks = [\<lparr>kind = video, enabled = True, track_state = live\<rparr>]"

definition chunk_a :: blob where
  "chunk_a = \<lparr>blob_bytes = [26, 69], blob_type = ''video/webm''\<rparr>"

definition chunk_b :: blob where
  "chunk_b = \<lparr>blob_bytes = [223], blob_type = ''video/webm''\<rparr>"

definition empty_chunk :: blob where
  "empty_chunk = \<lparr>blob_bytes = [], blob_type = ''video/webm''\<rparr>"

definition permission_denied :: thrown where
  "permission_denied = Error_obj ''NotAllowedError'' ''Permission denied''"

text \<open>The state after a list of events from the first mount (the initial state if one of
  the events cannot happen).\<close>

definition state_after :: "event list \<Rightarrow> app" where
  "state_after evs =
     (case run all_supported evs initial_app of None \<Rightarrow> initial_app | Some st \<Rightarrow> st)"

text \<open>A webcam recording in progress: the socket has opened, one chunk has been buffered
  and sent, and one second has been counted.\<close>

definition recording_example :: app where
  "recording_example =
     state_after [Click_record webcam, Media_settled 0 (Inr camera_tracks), Socket_opened 0,
                  Recorder_timeslice 0 chunk_a, Conversion_done 0, Interval_fired 1]"

text \<open>A webcam recording that has just started: no chunk has been delivered yet.\<close>

definition started_example :: app where
  "started_example = state_after [Click_record webcam, Media_settled 0 (Inr camera_tracks)]"

text \<open>A started capture in \<^verbatim>\<open>ImprovedVideoChat\<close>.\<close>

definition chat_example :: improved_chat where
  "chat_example = i_startRecording (Inr camera_tracks) initial_improved_chat"


section \<open>Properties of the negotiation\<close>

lemma getMimeType_loop_none:
  "\<forall>t \<in> set ts. \<not> supported t \<Longrightarrow> getMimeType_loop supported ts = ''video/webm''"
  by (induction ts) simp_all

lemma getMimeType_loop_first:
  "i < length ts \<Longrightarrow> supported (ts ! i) \<Longrightarrow> \<forall>j < i. \<not> supported (ts ! j) \<Longrightarrow>
   getMimeType_loop supported ts = ts ! i"
proof (induction ts arbitrary: i)
  case Nil
  then show ?case by simp
next
  case (Cons t ts)
  show ?case
  proof (cases i)
    case 0
    with Cons.prems show ?thesis by simp
  next
    case (Suc k)
    with Cons.prems have "\<not> supported t" by auto
    moreover have "getMimeType_loop supported ts = ts ! k"
      using Cons.prems Suc by (intro Cons.IH) auto
    ultimately show ?thesis using Suc by simp
  qed
qed

text \<open>
  C5. The negotiation returns the first entry of the fixed preference list that the platform
  reports as supported, and the generic default \<^verbatim>\<open>video/webm\<close> when no entry is supported.
\<close>

theorem getMimeType_first_supported:
  "(\<forall>i < length types. supported (types ! i) \<longrightarrow> (\<forall>j < i. \<not> supported (types ! j)) \<longrightarrow>
       getMimeType supported = types ! i) \<and>
   ((\<forall>t \<in> set types. \<not> supported t) \<longrightarrow> getMimeType supported = ''video/webm'')"
  unfolding getMimeType_def
  using getMimeType_loop_first [of _ types supported] getMimeType_loop_none [of types supported]
  by blast

theorem getMimeType_first_supported_witness:
  "getMimeType (\<lambda>t. t = ''video/webm;codecs=h264,opus'' \<or> t = ''video/mp4'') =
     ''video/webm;codecs=h264,opus'' \<and>
   getMimeType (\<lambda>t. False) = ''video/webm''"
proof -
  let ?supported = "\<lambda>t. t = ''video/webm;codecs=h264,opus'' \<or> t = ''video/mp4''"
  have a: "(2::nat) < length types" by (simp add: types_def)
  have b: "?supported (types ! 2)" by (simp add: types_def)
  have c: "\<forall>j < (2::nat). \<not> ?supported (types ! j)"
    by (simp add: types_def less_Suc_eq numeral_2_eq_2)
  have "getMimeType ?supported = types ! 2"
    using getMimeType_first_supported [of ?supported] a b c by blast
  moreover have "getMimeType (\<lambda>t. False) = ''video/webm''"
    using getMimeType_first_supported [of "\<lambda>t. False"] by simp
  ultimately show ?thesis by (simp add: types_def)
qed

section \<open>Stores\<close>

lemma length_update_at [simp]: "length (update_at i f xs) = length xs"
  by (simp add: update_at_def)

lemma lookup_update_at:
  "lookup (update_at i f xs) j = (if j = i then map_option f (lookup xs i) else lookup xs j)"
  by (simp add: lookup_def update_at_def)

lemma lookup_snoc:
  "lookup (xs @ [x]) i =
     (if i < length xs then Some (xs ! i) else if i = length xs then Some x else None)"
  by (simp add: lookup_def nth_append)

lemma list_all_lookup: "list_all P xs \<Longrightarrow> lookup xs i = Some x \<Longrightarrow> P x"
  by (auto simp: lookup_def list_all_length split: if_splits)

lemma list_all_update_at:
  assumes "list_all P xs" and "\<And>x. P x \<Longrightarrow> P (f x)"
  shows "list_all P (update_at i f xs)"
proof (cases "i < length xs")
  case True
  with assms(1) have "P (xs ! i)" by (simp add: list_all_length)
  then have "P (f (xs ! i))" by (rule assms(2))
  with assms(1) True show ?thesis
    by (simp add: update_at_def list_all_length nth_list_update)
next
  case False
  with assms(1) show ?thesis by (simp add: update_at_def)
qed

lemma list_all_list_update:
  "list_all P xs \<Longrightarrow> P x \<Longrightarrow> list_all P (xs[i := x])"
  by (auto simp: list_all_iff dest!: set_update_subset_insert [THEN subsetD])

lemma list_all_remove_nth: "list_all P xs \<Longrightarrow> list_all P (remove_nth i xs)"
  by (auto simp: remove_nth_def list_all_iff dest: in_set_takeD in_set_dropD)

section \<open>Runs\<close>

lemma run_reachable:
  "run supported evs st = Some st' \<Longrightarrow> reachable supported st \<Longrightarrow> reachable supported st'"
proof (induction evs arbitrary: st)
  case Nil
  then show ?case by simp
next
  case (Cons ev evs)
  then obtain st1 where s: "step supported ev st = Some st1" and r: "run supported evs st1 = Some st'"
    by (auto split: option.splits)
  from Cons.prems(2) s have "reachable supported st1" by (rule reachable_step)
  with r show ?case by (rule Cons.IH)
qed

section \<open>Frame of the state update of isRecording\<close>

lemma setIsRecording_frame [simp]:
  "recordingType (setIsRecording b st) = recordingType st"
  "recordedChunks (setIsRecording b st) = recordedChunks st"
  "previewUrl (setIsRecording b st) = previewUrl st"
  "mediaRecorderRef (setIsRecording b st) = mediaRecorderRef st"
  "streamRef (setIsRecording b st) = streamRef st"
  "websocketRef (setIsRecording b st) = websocketRef st"
  "video_srcObject (setIsRecording b st) = video_srcObject st"
  "video_muted (setIsRecording b st) = video_muted st"
  "video_src (setIsRecording b st) = video_src st"
  "recorders (setIsRecording b st) = recorders st"
  "streams (setIsRecording b st) = streams st"
  "sockets (setIsRecording b st) = sockets st"
  "object_urls (setIsRecording b st) = object_urls st"
  "timeouts (setIsRecording b st) = timeouts st"
  "media_requests (setIsRecording b st) = media_requests st"
  "conversions (setIsRecording b st) = conversions st"
  "downloads (setIsRecording b st) = downloads st"
  "rejections (setIsRecording b st) = rejections st"
  "console (setIsRecording b st) = console st"
  "isRecording (setIsRecording b st) = b"
  by (simp_all add: setIsRecording_def timer_effect_def timer_cleanup_def clearInterval_def
        split: option.splits)

section \<open>The invariant of the platform objects holds\<close>

lemma objects_inv_frame:
  "recorders st' = recorders st \<Longrightarrow> sockets st' = sockets st \<Longrightarrow>
   recordedChunks st' = recordedChunks st \<Longrightarrow> conversions st' = conversions st \<Longrightarrow>
   timeouts st' = timeouts st \<Longrightarrow> objects_inv supported st' = objects_inv supported st"
  by (simp add: objects_inv_def)

lemma recorders_update_ok:
  "list_all (recorder_ok supported) rs \<Longrightarrow>
   list_all (recorder_ok supported) (update_at r recorder_stop rs)"
  "list_all (recorder_ok supported) rs \<Longrightarrow>
   list_all (recorder_ok supported) (update_at r (\<lambda>mr. mr\<lparr>stop_queued := q\<rparr>) rs)"
  "list_all (recorder_ok supported) rs \<Longrightarrow>
   list_all (recorder_ok supported) (update_at r (\<lambda>mr. mr\<lparr>mr_state := v\<rparr>) rs)"
  "list_all (recorder_ok supported) rs \<Longrightarrow> 0 < blob_size b \<Longrightarrow>
   list_all (recorder_ok supported) (update_at r (\<lambda>mr. mr\<lparr>chunks := chunks mr @ [b]\<rparr>) rs)"
  by (erule list_all_update_at, simp add: recorder_ok_def recorder_stop_def nonempty_def)+

lemma sockets_update_ok:
  "list_all socket_ok ss \<Longrightarrow> list_all socket_ok (update_at w socket_close ss)"
  "list_all socket_ok ss \<Longrightarrow> list_all socket_ok (update_at w (\<lambda>ws. ws\<lparr>readyState := v\<rparr>) ss)"
  by (erule list_all_update_at, simp add: socket_ok_def socket_close_def)+

lemmas basic_ops = console_log_def console_error_def createObjectURL_def revokeObjectURL_def
  clearInterval_def stop_tracks_def ws_close_def mr_stop_def push_chunk_def
  setupWebSocket_def reconnect_def interval_tick_def

lemma oi_ondataavailable:
  "objects_inv supported st \<Longrightarrow> objects_inv supported (ondataavailable r b st)"
  by (simp add: objects_inv_def ondataavailable_def Let_def push_chunk_def
        recorders_update_ok nonempty_def)

lemma oi_ws_send:
  "ws_send w bs st = Inr st' \<Longrightarrow> bs \<noteq> [] \<Longrightarrow> objects_inv supported st \<Longrightarrow>
   objects_inv supported st'"
proof -
  assume a: "ws_send w bs st = Inr st'" and bs: "bs \<noteq> []" and inv: "objects_inv supported st"
  show ?thesis
  proof (cases "lookup (sockets st) w")
    case None
    with a inv show ?thesis by (simp add: ws_send_def)
  next
    case (Some ws)
    from inv Some have ok: "socket_ok ws"
      by (auto simp: objects_inv_def dest: list_all_lookup)
    from a Some obtain ws1 where s: "socket_send bs ws = Inr ws1"
      and st': "st' = st\<lparr>sockets := (sockets st)[w := ws1]\<rparr>"
      by (auto simp: ws_send_def split: sum.splits)
    from s ok bs have "socket_ok ws1"
      by (auto simp: socket_send_def socket_ok_def split: ws_readyState.splits)
    with inv show ?thesis
      by (simp add: st' objects_inv_def list_all_list_update)
  qed
qed

lemma oi_resume:
  assumes "objects_inv supported st" and "0 < blob_size b"
  shows "objects_inv supported (ondataavailable_resume b st)"
proof (cases "websocketRef st")
  case None
  with assms(1) show ?thesis
    by (simp add: ondataavailable_resume_def objects_inv_def)
next
  case (Some w)
  from assms(2) have ne: "blob_bytes b \<noteq> []" by (simp add: blob_size_def)
  show ?thesis
  proof (cases "ws_send w (blob_bytes b) st")
    case (Inl e)
    with Some assms(1) show ?thesis
      by (simp add: ondataavailable_resume_def objects_inv_def)
  next
    case (Inr st1)
    from Inr ne assms(1) have "objects_inv supported st1" by (rule oi_ws_send)
    with Some Inr show ?thesis by (simp add: ondataavailable_resume_def)
  qed
qed

lemma oi_onstop: "objects_inv supported st \<Longrightarrow> objects_inv supported (onstop supported r st)"
  by (auto simp: onstop_def Let_def basic_ops objects_inv_def sockets_update_ok recorder_ok_def
        dest: list_all_lookup split: option.splits prod.splits)

lemma oi_request:
  "objects_inv supported st \<Longrightarrow> \<not> isRecording st \<Longrightarrow>
   objects_inv supported (startRecording_request ty st)"
  by (simp add: startRecording_request_def Let_def basic_ops objects_inv_def socket_ok_def
        split: option.splits)

lemma oi_start_resume:
  "objects_inv supported st \<Longrightarrow> objects_inv supported (startRecording_resume supported ty res st)"
  by (simp add: startRecording_resume_def Let_def console_error_def objects_inv_def
        recorder_ok_def split: sum.splits)

lemma oi_stop: "objects_inv supported st \<Longrightarrow> objects_inv supported (stopRecording st)"
  by (simp add: stopRecording_def mr_stop_def objects_inv_def recorders_update_ok
        split: option.splits)

lemma oi_reset: "objects_inv supported st \<Longrightarrow> objects_inv supported (resetRecording st)"
  by (simp add: resetRecording_def Let_def basic_ops objects_inv_def split: option.splits)

lemma oi_download:
  "objects_inv supported st \<Longrightarrow> objects_inv supported (downloadRecording supported now st)"
  by (simp add: downloadRecording_def Let_def basic_ops objects_inv_def
        split: option.splits prod.splits)

lemma oi_stop_task:
  "objects_inv supported st \<Longrightarrow> objects_inv supported (recorder_stop_task supported r b st)"
  unfolding recorder_stop_task_def
  by (intro oi_onstop oi_ondataavailable) (simp add: objects_inv_def recorders_update_ok)

lemma oi_source_ended:
  assumes "objects_inv supported st"
  shows "objects_inv supported (recorder_source_ended supported r b st)"
proof (cases "lookup (recorders st) r")
  case None
  with assms show ?thesis by (simp add: recorder_source_ended_def)
next
  case (Some mr)
  from assms have "objects_inv supported
      (stop_tracks (mr_stream mr)
        (st\<lparr>recorders := update_at r (\<lambda>m. m\<lparr>mr_state := inactive\<rparr>) (recorders st)\<rparr>))"
    by (simp add: objects_inv_def stop_tracks_def recorders_update_ok)
  with Some show ?thesis
    by (simp add: recorder_source_ended_def oi_onstop oi_ondataavailable)
qed

lemma oi_socket_opened:
  "objects_inv supported st \<Longrightarrow>
   objects_inv supported
     (ws_onopen w (st\<lparr>sockets := update_at w (\<lambda>ws. ws\<lparr>readyState := OPEN\<rparr>) (sockets st)\<rparr>))"
  by (simp add: ws_onopen_def console_log_def objects_inv_def sockets_update_ok)

lemma oi_socket_closed:
  assumes "objects_inv supported st"
  shows "objects_inv supported
     (ws_onclose w (st\<lparr>sockets := update_at w (\<lambda>ws. ws\<lparr>readyState := CLOSED\<rparr>) (sockets st)\<rparr>))"
proof -
  let ?ss = "update_at w (\<lambda>ws. ws\<lparr>readyState := CLOSED\<rparr>) (sockets st)"
  from assms have ok: "list_all socket_ok ?ss"
    by (simp add: objects_inv_def sockets_update_ok)
  have "\<not> onclose_isRecording ws" if "lookup ?ss w = Some ws" for ws
    using list_all_lookup [OF ok that] by (simp add: socket_ok_def)
  with assms ok show ?thesis
    by (auto simp: ws_onclose_def console_log_def Let_def objects_inv_def split: option.splits)
qed

lemma oi_socket_error:
  "objects_inv supported st \<Longrightarrow> objects_inv supported (ws_onerror w e st)"
  by (simp add: ws_onerror_def console_error_def objects_inv_def)

lemma objects_inv_step:
  assumes "step supported ev st = Some st'" and "objects_inv supported st"
  shows "objects_inv supported st'"
proof (cases ev)
  case (Conversion_done i)
  with assms(1) have i: "i < length (conversions st)"
    and st': "st' = ondataavailable_resume (conversions st ! i)
                      (st\<lparr>conversions := remove_nth i (conversions st)\<rparr>)"
    by (auto split: if_splits)
  from assms(2) i have "0 < blob_size (conversions st ! i)"
    by (simp add: objects_inv_def list_all_length nonempty_def)
  moreover from assms(2)
  have "objects_inv supported (st\<lparr>conversions := remove_nth i (conversions st)\<rparr>)"
    by (simp add: objects_inv_def list_all_remove_nth)
  ultimately show ?thesis unfolding st' by (intro oi_resume)
next
  case (Media_settled i res)
  from assms(2) have "objects_inv supported (st\<lparr>media_requests := remove_nth i (media_requests st)\<rparr>)"
    by (simp add: objects_inv_def)
  with assms(1) Media_settled show ?thesis
    by (auto split: if_splits intro!: oi_start_resume)
next
  case (Timeout_fired i)
  with assms show ?thesis by (simp add: objects_inv_def)
next
  case (Interval_fired t)
  with assms show ?thesis
    by (auto simp: interval_tick_def objects_inv_def split: if_splits)
qed (use assms in \<open>auto simp: oi_request oi_stop oi_reset oi_download oi_ondataavailable oi_stop_task
       oi_source_ended oi_socket_opened oi_socket_closed oi_socket_error
     split: option.splits if_splits\<close>)

lemma objects_inv_reachable: "reachable supported st \<Longrightarrow> objects_inv supported st"
proof (induction rule: reachable.induct)
  case reachable_initial
  show ?case by (simp add: objects_inv_def initial_app_def)
next
  case (reachable_step st ev st')
  then show ?case by (auto intro: objects_inv_step)
qed

section \<open>The invariant of the timer holds\<close>

lemma removeAll_singleton: "set xs \<subseteq> {t} \<Longrightarrow> removeAll t xs = []"
  by (induction xs) auto

lemma timer_inv_frame:
  "intervals st' = intervals st \<Longrightarrow> timerIntervalRef st' = timerIntervalRef st \<Longrightarrow>
   isRecording st' = isRecording st \<Longrightarrow> recordingDuration st' = recordingDuration st \<Longrightarrow>
   previewUrl st' = previewUrl st \<Longrightarrow> recordedChunks st' = recordedChunks st \<Longrightarrow>
   timer_inv st' = timer_inv st"
  by (simp add: timer_inv_def)

lemma ti_setIsRecording: "timer_inv st \<Longrightarrow> timer_inv (setIsRecording b st)"
  by (auto simp: timer_inv_def setIsRecording_def timer_effect_def timer_cleanup_def
        clearInterval_def removeAll_singleton split: option.splits)

lemma ti_ondataavailable: "timer_inv (ondataavailable r b st) = timer_inv st"
  by (rule timer_inv_frame) (simp_all add: ondataavailable_def Let_def push_chunk_def)

lemma ti_ws_send: "ws_send w bs st = Inr st' \<Longrightarrow> timer_inv st' = timer_inv st"
  by (rule timer_inv_frame) (auto simp: ws_send_def split: option.splits sum.splits)

lemma ti_resume: "timer_inv (ondataavailable_resume b st) = timer_inv st"
  by (auto simp: ondataavailable_resume_def ti_ws_send split: option.splits sum.splits)
     (simp_all add: timer_inv_def)

lemma ti_onstop: "timer_inv st \<Longrightarrow> timer_inv (onstop supported r st)"
  by (simp add: onstop_def Let_def basic_ops timer_inv_def split: option.splits prod.splits)

lemma ti_request:
  "timer_inv st \<Longrightarrow> previewUrl st = None \<Longrightarrow> timer_inv (startRecording_request ty st)"
  by (simp add: startRecording_request_def Let_def basic_ops timer_inv_def)

lemma ti_start_resume:
  assumes "timer_inv st"
  shows "timer_inv (startRecording_resume supported ty res st)"
proof (cases res)
  case (Inl e)
  with assms show ?thesis
    by (simp add: startRecording_resume_def console_error_def timer_inv_def)
next
  case (Inr tracks)
  have *: "timer_inv (st\<lparr>streams := a, streamRef := b, video_srcObject := c, video_muted := d\<rparr>)"
    for a b c d using assms by (simp add: timer_inv_def)
  have **: "timer_inv (st1\<lparr>recordingType := x\<rparr>) = timer_inv st1"
    "timer_inv (st1\<lparr>recorders := y, mediaRecorderRef := z\<rparr>) = timer_inv st1"
    "timer_inv (console_error m e st1) = timer_inv st1" for st1 x y z m e
    by (simp_all add: timer_inv_def console_error_def)
  from Inr show ?thesis
    by (simp add: startRecording_resume_def Let_def ** * ti_setIsRecording)
qed

lemma ti_stop: "timer_inv st \<Longrightarrow> timer_inv (stopRecording st)"
proof -
  assume a: "timer_inv st"
  have "timer_inv (mr_stop r st)" for r using a by (simp add: mr_stop_def timer_inv_def)
  then have "timer_inv (setIsRecording False (mr_stop r st))" for r
    by (rule ti_setIsRecording)
  then have "timer_inv ((setIsRecording False (mr_stop r st))\<lparr>recordingType := None\<rparr>)" for r
    by (simp add: timer_inv_def)
  with a show ?thesis by (simp add: stopRecording_def split: option.splits)
qed

lemma ti_reset: "timer_inv st \<Longrightarrow> timer_inv (resetRecording st)"
  by (simp add: resetRecording_def Let_def basic_ops timer_inv_def split: option.splits)

lemma ti_download: "timer_inv (downloadRecording supported now st) = timer_inv st"
  by (rule timer_inv_frame)
     (simp_all add: downloadRecording_def Let_def basic_ops split: prod.splits)

lemma ti_tick: "timer_inv st \<Longrightarrow> t \<in> set (intervals st) \<Longrightarrow> timer_inv (interval_tick st)"
  by (auto simp: interval_tick_def timer_inv_def)

lemma ti_stop_task: "timer_inv st \<Longrightarrow> timer_inv (recorder_stop_task supported r b st)"
  unfolding recorder_stop_task_def
  by (intro ti_onstop) (simp add: ti_ondataavailable, simp add: timer_inv_def)

lemma ti_source_ended:
  assumes "timer_inv st"
  shows "timer_inv (recorder_source_ended supported r b st)"
proof (cases "lookup (recorders st) r")
  case None
  with assms show ?thesis by (simp add: recorder_source_ended_def)
next
  case (Some mr)
  from assms have "timer_inv
      (stop_tracks (mr_stream mr)
        (st\<lparr>recorders := update_at r (\<lambda>m. m\<lparr>mr_state := inactive\<rparr>) (recorders st)\<rparr>))"
    by (simp add: timer_inv_def stop_tracks_def)
  with Some show ?thesis
    by (simp add: recorder_source_ended_def ti_onstop ti_ondataavailable)
qed

lemma ti_socket_events:
  "timer_inv (ws_onopen w (st\<lparr>sockets := ss\<rparr>)) = timer_inv st"
  "timer_inv (ws_onerror w e st) = timer_inv st"
  "timer_inv (ws_onclose w (st\<lparr>sockets := ss\<rparr>)) = timer_inv st"
  "timer_inv (reconnect_timeout c (st\<lparr>timeouts := ts\<rparr>)) = timer_inv st"
  by (rule timer_inv_frame;
      simp add: ws_onopen_def ws_onerror_def ws_onclose_def reconnect_timeout_def Let_def
        basic_ops split: option.splits)+

lemma timer_inv_step:
  assumes "step supported ev st = Some st'" and "timer_inv st"
  shows "timer_inv st'"
proof (cases ev)
  case (Media_settled i res)
  from assms(2) have "timer_inv (st\<lparr>media_requests := remove_nth i (media_requests st)\<rparr>)"
    by (simp add: timer_inv_def)
  with assms(1) Media_settled show ?thesis
    by (auto split: if_splits intro!: ti_start_resume)
next
  case (Conversion_done i)
  from assms(2) have "timer_inv (st\<lparr>conversions := remove_nth i (conversions st)\<rparr>)"
    by (simp add: timer_inv_def)
  with assms(1) Conversion_done show ?thesis
    by (auto split: if_splits simp: ti_resume)
qed (use assms in \<open>auto simp: ti_request ti_stop ti_reset ti_download ti_tick ti_ondataavailable
       ti_stop_task ti_source_ended ti_socket_events split: option.splits if_splits\<close>)

lemma timer_inv_reachable: "reachable supported st \<Longrightarrow> timer_inv st"
proof (induction rule: reachable.induct)
  case reachable_initial
  show ?case by (simp add: timer_inv_def initial_app_def)
next
  case (reachable_step st ev st')
  then show ?case by (auto intro: timer_inv_step)
qed

section \<open>Example states\<close>

lemma reachable_state_after: "reachable all_supported (state_after evs)"
proof (cases "run all_supported evs initial_app")
  case None
  then show ?thesis by (simp add: state_after_def reachable_initial)
next
  case (Some st)
  then have "reachable all_supported st"
    using reachable_initial by (rule run_reachable)
  with Some show ?thesis by (simp add: state_after_def)
qed

lemma reachable_recording_example: "reachable all_supported recording_example"
  unfolding recording_example_def by (rule reachable_state_after)

section \<open>Reconnecting\<close>

text \<open>
  The handler itself schedules exactly one timeout of 3000 ms when the \<^verbatim>\<open>isRecording\<close> of its
  closure is true, and none otherwise. But every socket is created by a \<^verbatim>\<open>setupWebSocket\<close>
  of a render in which \<^verbatim>\<open>isRecording\<close> was false (the record buttons are shown only then),
  so no close event ever schedules a reconnect.
\<close>

lemma ws_onclose_timeouts:
  "lookup (sockets st) w = Some ws \<Longrightarrow>
   timeouts (ws_onclose w st) =
     (if onclose_isRecording ws then timeouts st @ [(3000, True)] else timeouts st)"
  by (simp add: ws_onclose_def console_log_def reconnect_def Let_def)

lemma no_reconnect_is_ever_scheduled:
  assumes "reachable supported st" and "step supported (Socket_closed w) st = Some st'"
  shows "timeouts st' = []"
proof -
  from assms(1) have "objects_inv supported st" by (rule objects_inv_reachable)
  with assms(2) have "objects_inv supported st'" by (rule objects_inv_step)
  then show ?thesis by (simp add: objects_inv_def)
qed

text \<open>
  C1. The claim asks for exactly one reconnect, scheduled 3 seconds after a close event that
  occurs while recording. The code schedules none: here the component is recording with an
  open socket, the socket closes, and no timeout is pending afterwards, because the handler
  tests the \<^verbatim>\<open>isRecording\<close> that its closure captured when the recording was started.
\<close>

theorem socket_close_while_recording_schedules_no_reconnect:
  "isRecording recording_example \<and> status_of recording_example = Recording \<and>
   timeouts recording_example = [] \<and>
   (case step all_supported (Socket_closed 0) recording_example of
      None \<Rightarrow> False
    | Some st \<Rightarrow> isRecording st \<and> map readyState (sockets st) = [CLOSED] \<and> timeouts st = [])"
  by code_simp

section \<open>Chunks\<close>

lemma ondataavailable_empty: "blob_size b = 0 \<Longrightarrow> ondataavailable r b st = st"
  by (simp add: ondataavailable_def)

lemma socket_is_open_push_chunk [simp]: "socket_is_open (push_chunk r b st) = socket_is_open st"
  by (simp add: socket_is_open_def push_chunk_def split: option.splits)

lemma ondataavailable_nonempty:
  "0 < blob_size b \<Longrightarrow>
   ondataavailable r b st =
     st\<lparr>recorders := update_at r (\<lambda>mr. mr\<lparr>chunks := chunks mr @ [b]\<rparr>) (recorders st),
        conversions := (if socket_is_open st then conversions st @ [b] else conversions st)\<rparr>"
  by (simp add: ondataavailable_def Let_def) (simp add: push_chunk_def)

lemma ondataavailable_resume_frame:
  "recorders (ondataavailable_resume b st) = recorders st"
  "conversions (ondataavailable_resume b st) = conversions st"
  "recordedChunks (ondataavailable_resume b st) = recordedChunks st"
  "console (ondataavailable_resume b st) = console st"
  by (auto simp: ondataavailable_resume_def ws_send_def split: option.splits sum.splits)

lemma ondataavailable_resume_open:
  assumes "websocketRef st = Some w" and "lookup (sockets st) w = Some ws"
    and "readyState ws = OPEN"
  shows "sockets (ondataavailable_resume b st)
           = (sockets st)[w := ws\<lparr>wire := wire ws @ [blob_bytes b]\<rparr>]"
  using assms by (simp add: ondataavailable_resume_def ws_send_def socket_send_def)

lemma lookup_list_update_id: "lookup xs i = Some x \<Longrightarrow> xs[i := x] = xs"
  by (auto simp: lookup_def split: if_splits)

lemma ondataavailable_resume_not_open:
  assumes "\<not> socket_is_open st"
  shows "sockets (ondataavailable_resume b st) = sockets st"
proof (cases "websocketRef st")
  case None
  then show ?thesis by (simp add: ondataavailable_resume_def)
next
  case w: (Some w)
  show ?thesis
  proof (cases "lookup (sockets st) w")
    case None
    with w show ?thesis by (simp add: ondataavailable_resume_def ws_send_def)
  next
    case (Some ws)
    with w assms have "readyState ws \<noteq> OPEN" by (simp add: socket_is_open_def)
    with w Some show ?thesis
      by (cases "readyState ws")
         (simp_all add: ondataavailable_resume_def ws_send_def socket_send_def
            lookup_list_update_id)
  qed
qed

text \<open>
  C10. A chunk of size zero is discarded entirely: the handler leaves the state as it is, so
  the chunk is neither appended to the buffer nor forwarded. Hence in every reachable state
  every chunk in a recorder's buffer, every recorded chunk (the parts of the artifact) and
  every message handed to a socket is non-empty.
\<close>

theorem zero_size_chunk_discarded:
  "(blob_size b = 0 \<longrightarrow> ondataavailable r b st = st) \<and>
   (reachable supported st1 \<longrightarrow>
      (\<forall>mr \<in> set (recorders st1). \<forall>c \<in> set (chunks mr). 0 < blob_size c) \<and>
      (\<forall>c \<in> set (recordedChunks st1). 0 < blob_size c) \<and>
      (\<forall>c \<in> set (conversions st1). 0 < blob_size c) \<and>
      (\<forall>ws \<in> set (sockets st1). \<forall>m \<in> set (wire ws). m \<noteq> []))"
proof (intro conjI impI)
  assume "reachable supported st1"
  then have inv: "objects_inv supported st1" by (rule objects_inv_reachable)
  then show "\<forall>mr \<in> set (recorders st1). \<forall>c \<in> set (chunks mr). 0 < blob_size c"
    by (simp add: objects_inv_def recorder_ok_def list_all_iff nonempty_def)
  from inv show "\<forall>c \<in> set (recordedChunks st1). 0 < blob_size c"
    by (simp add: objects_inv_def list_all_iff nonempty_def)
  from inv show "\<forall>c \<in> set (conversions st1). 0 < blob_size c"
    by (simp add: objects_inv_def list_all_iff nonempty_def)
  from inv show "\<forall>ws \<in> set (sockets st1). \<forall>m \<in> set (wire ws). m \<noteq> []"
    by (simp add: objects_inv_def socket_ok_def list_all_iff)
qed (simp add: ondataavailable_empty)

theorem zero_size_chunk_discarded_witness:
  "ondataavailable 0 empty_chunk recording_example = recording_example \<and>
   list_all (\<lambda>mr. list_all (\<lambda>c. 0 < blob_size c) (chunks mr)) (recorders recording_example) \<and>
   list_all (\<lambda>ws. list_all (\<lambda>m. m \<noteq> []) (wire ws)) (sockets recording_example) \<and>
   map (\<lambda>mr. map blob_size (chunks mr)) (recorders recording_example) = [[2]] \<and>
   map wire (sockets recording_example) = [[[26, 69]]]"
proof -
  have z: "blob_size empty_chunk = 0" by code_simp
  note t = zero_size_chunk_discarded
    [of empty_chunk 0 recording_example all_supported recording_example]
  from t z have "ondataavailable 0 empty_chunk recording_example = recording_example"
    by blast
  moreover from t reachable_recording_example
  have "list_all (\<lambda>mr. list_all (\<lambda>c. 0 < blob_size c) (chunks mr)) (recorders recording_example)"
    "list_all (\<lambda>ws. list_all (\<lambda>m. m \<noteq> []) (wire ws)) (sockets recording_example)"
    by (simp_all add: list_all_iff)
  moreover have
    "map (\<lambda>mr. map blob_size (chunks mr)) (recorders recording_example) = [[2]]"
    "map wire (sockets recording_example) = [[[26, 69]]]"
    by code_simp+
  ultimately show ?thesis by blast
qed

text \<open>
  C3, as amended. A chunk of non-zero size that the recorder delivers is appended to the end
  of the recorder's buffer, whatever the state of the socket; the handler then starts a
  forward exactly when the socket in \<^verbatim>\<open>websocketRef\<close> is open, and has put nothing on the
  wire yet. When the conversion to bytes has finished, the bytes are transmitted on the
  socket then in \<^verbatim>\<open>websocketRef\<close> if it is open, and otherwise no socket changes; in both
  cases the buffers are left alone and the forward is not queued again.
\<close>

theorem nonempty_chunk_buffered_then_forwarded:
  assumes "0 < blob_size b" and "lookup (recorders st) r = Some mr"
  shows
    "lookup (recorders (ondataavailable r b st)) r = Some (mr\<lparr>chunks := chunks mr @ [b]\<rparr>) \<and>
     sockets (ondataavailable r b st) = sockets st \<and>
     conversions (ondataavailable r b st)
       = (if socket_is_open st then conversions st @ [b] else conversions st) \<and>
     recorders (ondataavailable_resume b st2) = recorders st2 \<and>
     conversions (ondataavailable_resume b st2) = conversions st2 \<and>
     (socket_is_open st2 \<longrightarrow>
        (\<exists>w ws. websocketRef st2 = Some w \<and> lookup (sockets st2) w = Some ws \<and>
           sockets (ondataavailable_resume b st2)
             = (sockets st2)[w := ws\<lparr>wire := wire ws @ [blob_bytes b]\<rparr>])) \<and>
     (\<not> socket_is_open st2 \<longrightarrow> sockets (ondataavailable_resume b st2) = sockets st2)"
proof -
  have "socket_is_open st2 \<Longrightarrow>
        \<exists>w ws. websocketRef st2 = Some w \<and> lookup (sockets st2) w = Some ws \<and>
           sockets (ondataavailable_resume b st2)
             = (sockets st2)[w := ws\<lparr>wire := wire ws @ [blob_bytes b]\<rparr>]"
    by (auto simp: socket_is_open_def ondataavailable_resume_open split: option.splits)
  with assms show ?thesis
    by (simp add: ondataavailable_nonempty lookup_update_at ondataavailable_resume_frame
          ondataavailable_resume_not_open)
qed

theorem nonempty_chunk_buffered_then_forwarded_witness:
  "lookup (recorders (ondataavailable 0 chunk_b recording_example)) 0
     = Some \<lparr>mr_state = recording, mr_stream = 0, mimeType = ''video/webm;codecs=vp8,opus'',
             chunks = [chunk_a, chunk_b], stop_queued = False\<rparr> \<and>
   sockets (ondataavailable 0 chunk_b recording_example) = sockets recording_example \<and>
   conversions (ondataavailable 0 chunk_b recording_example) = [chunk_b] \<and>
   map wire (sockets (ondataavailable_resume chunk_b
                        (ondataavailable 0 chunk_b recording_example)))
     = [[[26, 69], [223]]]"
proof -
  let ?mr = "\<lparr>mr_state = recording, mr_stream = 0, mimeType = ''video/webm;codecs=vp8,opus'',
              chunks = [chunk_a], stop_queued = False\<rparr>"
  let ?ws = "\<lparr>readyState = OPEN, onclose_isRecording = False, wire = [[26, 69]]\<rparr>"
  let ?st2 = "ondataavailable 0 chunk_b recording_example"
  have h1: "0 < blob_size chunk_b" by code_simp
  have h2: "lookup (recorders recording_example) 0 = Some ?mr" by code_simp
  have o: "socket_is_open recording_example" "conversions recording_example = []"
    by code_simp+
  have o2: "socket_is_open ?st2" "websocketRef ?st2 = Some 0" "sockets ?st2 = [?ws]"
    by code_simp+
  note t = nonempty_chunk_buffered_then_forwarded [OF h1 h2, of ?st2]
  from t o2(1) obtain w ws where w: "websocketRef ?st2 = Some w"
    and ws: "lookup (sockets ?st2) w = Some ws"
    and s: "sockets (ondataavailable_resume chunk_b ?st2)
              = (sockets ?st2)[w := ws\<lparr>wire := wire ws @ [blob_bytes chunk_b]\<rparr>]"
    by blast
  from w o2(2) have "w = 0" by simp
  with ws o2(3) have "ws = ?ws" by (simp add: lookup_def)
  with s \<open>w = 0\<close> o2(3)
  have "map wire (sockets (ondataavailable_resume chunk_b ?st2)) = [[[26, 69], [223]]]"
    by (simp add: chunk_b_def)
  with t o show ?thesis by simp
qed

text \<open>
  The claim as first stated, for every chunk of a cadence tick, fails for a chunk of size
  zero: with the socket open, the tick leaves the state, and so the buffer, as it was.
\<close>

theorem zero_size_chunk_not_appended:
  "blob_size empty_chunk = 0 \<and> socket_is_open recording_example \<and>
   map chunks (recorders recording_example) = [[chunk_a]] \<and>
   step all_supported (Recorder_timeslice 0 empty_chunk) recording_example
     = Some recording_example"
  by code_simp

section \<open>The artifact\<close>

lemma onstop_artifact:
  "previewUrl (onstop supported r st) = Some (length (object_urls st))"
  "video_src (onstop supported r st) = Some (length (object_urls st))"
  "object_urls (onstop supported r st) =
     object_urls st @
       [Some (new_Blob (case lookup (recorders st) r of None \<Rightarrow> [] | Some mr \<Rightarrow> chunks mr)
                (getMimeType supported))]"
  "recordedChunks (onstop supported r st) =
     (case lookup (recorders st) r of None \<Rightarrow> [] | Some mr \<Rightarrow> chunks mr)"
  "console (onstop supported r st) = console st"
  "rejections (onstop supported r st) = rejections st"
  "isRecording (onstop supported r st) = isRecording st"
  "recordingDuration (onstop supported r st) = recordingDuration st"
  by (simp_all add: onstop_def Let_def basic_ops split: option.splits prod.splits)

lemma ondataavailable_frame:
  "object_urls (ondataavailable r b st) = object_urls st"
  "console (ondataavailable r b st) = console st"
  "rejections (ondataavailable r b st) = rejections st"
  "isRecording (ondataavailable r b st) = isRecording st"
  "recordingDuration (ondataavailable r b st) = recordingDuration st"
  "mediaRecorderRef (ondataavailable r b st) = mediaRecorderRef st"
  by (simp_all add: ondataavailable_def Let_def push_chunk_def)

lemma ondataavailable_chunks:
  "lookup (recorders st) r = Some mr \<Longrightarrow>
   lookup (recorders (ondataavailable r b st)) r
     = Some (mr\<lparr>chunks := chunks mr @ (if 0 < blob_size b then [b] else [])\<rparr>)"
  by (simp add: ondataavailable_def Let_def push_chunk_def lookup_update_at)

lemma stopRecording_recorder:
  "lookup (recorders st) r = Some mr \<Longrightarrow>
   \<exists>mr1. lookup (recorders (stopRecording st)) r = Some mr1 \<and> chunks mr1 = chunks mr"
  by (simp add: stopRecording_def mr_stop_def lookup_update_at recorder_stop_def
        split: option.splits)

lemma stopRecording_frame:
  "object_urls (stopRecording st) = object_urls st"
  "console (stopRecording st) = console st"
  "rejections (stopRecording st) = rejections st"
  "mediaRecorderRef (stopRecording st) = mediaRecorderRef st"
  by (simp_all add: stopRecording_def mr_stop_def split: option.splits)

lemma concat_bytes_snoc:
  "concat (map blob_bytes (cs @ (if 0 < blob_size b then [b] else [])))
     = concat (map blob_bytes cs) @ blob_bytes b"
  by (simp add: blob_size_def)

lemma end_artifact:
  assumes "lookup (recorders st) r = Some mr"
  shows "\<exists>url artifact.
        previewUrl (recorder_stop_task supported r fin (stopRecording st)) = Some url \<and>
        lookup (object_urls (recorder_stop_task supported r fin (stopRecording st))) url
          = Some (Some artifact) \<and>
        blob_bytes artifact = concat (map blob_bytes (chunks mr)) @ blob_bytes fin \<and>
        blob_type artifact = getMimeType supported"
    and "console (recorder_stop_task supported r fin (stopRecording st)) = console st"
    and "rejections (recorder_stop_task supported r fin (stopRecording st)) = rejections st"
proof -
  let ?st1 = "stopRecording st"
  let ?st2 = "ondataavailable r fin
      (?st1\<lparr>recorders := update_at r (\<lambda>mr. mr\<lparr>stop_queued := False\<rparr>) (recorders ?st1)\<rparr>)"
  from stopRecording_recorder [OF assms] obtain mr1
    where mr1: "lookup (recorders ?st1) r = Some mr1" "chunks mr1 = chunks mr" by blast
  then have "lookup (recorders (?st1\<lparr>recorders :=
      update_at r (\<lambda>mr. mr\<lparr>stop_queued := False\<rparr>) (recorders ?st1)\<rparr>)) r
      = Some (mr1\<lparr>stop_queued := False\<rparr>)"
    by (simp add: lookup_update_at)
  from ondataavailable_chunks [OF this, of fin]
  have l2: "lookup (recorders ?st2) r
      = Some (mr1\<lparr>stop_queued := False,
                   chunks := chunks mr @ (if 0 < blob_size fin then [fin] else [])\<rparr>)"
    using mr1(2) by simp
  let ?cs = "chunks mr @ (if 0 < blob_size fin then [fin] else [])"
  let ?b = "new_Blob ?cs (getMimeType supported)"
  have u2: "object_urls ?st2 = object_urls st" "console ?st2 = console st"
    "rejections ?st2 = rejections st"
    by (simp_all add: ondataavailable_frame stopRecording_frame)
  have t: "recorder_stop_task supported r fin ?st1 = onstop supported r ?st2"
    by (simp add: recorder_stop_task_def)
  show "\<exists>url artifact.
        previewUrl (recorder_stop_task supported r fin ?st1) = Some url \<and>
        lookup (object_urls (recorder_stop_task supported r fin ?st1)) url
          = Some (Some artifact) \<and>
        blob_bytes artifact = concat (map blob_bytes (chunks mr)) @ blob_bytes fin \<and>
        blob_type artifact = getMimeType supported"
    unfolding t
    by (intro exI [of _ "length (object_urls st)"] exI [of _ ?b])
       (simp add: onstop_artifact l2 u2 lookup_snoc new_Blob_def concat_bytes_snoc,
        simp add: blob_size_def)
  show "console (recorder_stop_task supported r fin ?st1) = console st"
    "rejections (recorder_stop_task supported r fin ?st1) = rejections st"
    unfolding t by (simp_all add: onstop_artifact u2)
qed

lemma ticks_recorder:
  "lookup (recorders st) r = Some mr \<Longrightarrow>
   lookup (recorders (ticks r bs st)) r
     = Some (mr\<lparr>chunks := chunks mr @ filter (\<lambda>b. 0 < blob_size b) bs\<rparr>)"
proof (induction bs arbitrary: st mr)
  case Nil
  then show ?case by simp
next
  case (Cons b bs)
  from ondataavailable_chunks [OF Cons.prems, of b]
  have "lookup (recorders (ondataavailable r b st)) r
      = Some (mr\<lparr>chunks := chunks mr @ (if 0 < blob_size b then [b] else [])\<rparr>)" .
  from Cons.IH [OF this] show ?case by simp
qed

lemma ticks_frame:
  "console (ticks r bs st) = console st"
  "rejections (ticks r bs st) = rejections st"
  "isRecording (ticks r bs st) = isRecording st"
  "mediaRecorderRef (ticks r bs st) = mediaRecorderRef st"
  by (induction bs arbitrary: st) (simp_all add: ondataavailable_frame)

lemma concat_bytes_filter:
  "concat (map blob_bytes (filter (\<lambda>b. 0 < blob_size b) bs)) = concat (map blob_bytes bs)"
  by (induction bs) (simp_all add: blob_size_def)

subsection \<open>The events of a recording and of its end\<close>

lemma run_append:
  "run supported (evs @ evs') st =
     (case run supported evs st of None \<Rightarrow> None | Some st1 \<Rightarrow> run supported evs' st1)"
  by (induction evs arbitrary: st) (simp_all split: option.splits)

text \<open>While the recorder records, every cadence tick can happen, and a run of ticks is the
  run of the handler on their chunks.\<close>

lemma run_timeslices:
  "lookup (recorders st) r = Some mr \<Longrightarrow> mr_state mr = recording \<Longrightarrow>
   run supported (map (Recorder_timeslice r) bs) st = Some (ticks r bs st)"
proof (induction bs arbitrary: st mr)
  case Nil
  then show ?case by simp
next
  case (Cons b bs)
  from ondataavailable_chunks [OF Cons.prems(1), of b]
  have l: "lookup (recorders (ondataavailable r b st)) r
      = Some (mr\<lparr>chunks := chunks mr @ (if 0 < blob_size b then [b] else [])\<rparr>)" .
  from Cons.prems(2)
  have "mr_state (mr\<lparr>chunks := chunks mr @ (if 0 < blob_size b then [b] else [])\<rparr>) = recording"
    by simp
  from Cons.IH [OF l this] Cons.prems show ?case by simp
qed

text \<open>
  \<^verbatim>\<open>end()\<close>: the click on stop is possible while recording; it makes \<^verbatim>\<open>recorder.stop()\<close>
  queue the recorder's task, and that task, which runs \<^verbatim>\<open>ondataavailable\<close> and \<^verbatim>\<open>onstop\<close>,
  can then happen.
\<close>

lemma stopRecording_queues_task:
  assumes "isRecording st" and "mediaRecorderRef st = Some r"
    and "lookup (recorders st) r = Some mr" and "mr_state mr = recording"
  shows "lookup (recorders (stopRecording st)) r
           = Some (mr\<lparr>mr_state := inactive, stop_queued := True\<rparr>)"
  using assms
  by (simp add: stopRecording_def mr_stop_def lookup_update_at recorder_stop_def)

lemma run_end:
  assumes "isRecording st" and "mediaRecorderRef st = Some r"
    and "lookup (recorders st) r = Some mr" and "mr_state mr = recording"
  shows "run supported [Click_stop, Recorder_stop_task r fin] st
           = Some (recorder_stop_task supported r fin (stopRecording st))"
  using assms(1) stopRecording_queues_task [OF assms] by simp

lemma run_recording_and_end:
  assumes "isRecording st" and "mediaRecorderRef st = Some r"
    and "lookup (recorders st) r = Some mr" and "mr_state mr = recording"
  shows "run supported (map (Recorder_timeslice r) bs @ [Click_stop, Recorder_stop_task r fin]) st
           = Some (recorder_stop_task supported r fin (stopRecording (ticks r bs st)))"
proof -
  let ?mr = "mr\<lparr>chunks := chunks mr @ filter (\<lambda>b. 0 < blob_size b) bs\<rparr>"
  have l: "lookup (recorders (ticks r bs st)) r = Some ?mr"
    using assms(3) by (rule ticks_recorder)
  from assms(4) have m: "mr_state ?mr = recording" by simp
  from assms(1,2) have "isRecording (ticks r bs st)" "mediaRecorderRef (ticks r bs st) = Some r"
    by (simp_all add: ticks_frame)
  from run_end [OF this l m]
  have "run supported [Click_stop, Recorder_stop_task r fin] (ticks r bs st)
          = Some (recorder_stop_task supported r fin (stopRecording (ticks r bs st)))" .
  with run_timeslices [OF assms(3,4), of supported bs] show ?thesis
    by (simp only: run_append option.case)
qed

text \<open>
  C4. When the recorder stops, the artifact stored under the preview URL is the concatenation
  of the bytes of all buffered chunks, in the order of the buffer, with the media type that
  the negotiation gives; in a reachable state this is the media type the recorder was
  created with. And \<^verbatim>\<open>end()\<close> does produce it: from a state that is recording with the
  recorder of \<^verbatim>\<open>mediaRecorderRef\<close>, any run of cadence ticks, then the click on stop, then
  the task that \<^verbatim>\<open>recorder.stop()\<close> queued (which delivers the data gathered since the last
  chunk) are events that can happen one after the other, and they end in a state whose
  preview URL holds the artifact: the bytes of the buffer, followed by the bytes of the
  chunks of the ticks in the order of their production, followed by the bytes of the last
  delivery (chunks of size zero are not buffered and have no bytes to add). With no chunk
  buffered, no bytes in the ticks and nothing gathered the artifact has length zero, and
  nothing is logged or rejected.
\<close>

theorem artifact_is_concatenation_of_chunks:
  assumes "lookup (recorders st) r = Some mr"
  shows
    "(\<exists>url artifact.
        previewUrl (onstop supported r st) = Some url \<and>
        lookup (object_urls (onstop supported r st)) url = Some (Some artifact) \<and>
        blob_bytes artifact = concat (map blob_bytes (chunks mr)) \<and>
        blob_type artifact = getMimeType supported \<and>
        (chunks mr = [] \<longrightarrow> blob_size artifact = 0)) \<and>
     recordedChunks (onstop supported r st) = chunks mr \<and>
     (reachable supported st \<longrightarrow> mimeType mr = getMimeType supported) \<and>
     (isRecording st \<and> mediaRecorderRef st = Some r \<and> mr_state mr = recording \<longrightarrow>
        (\<exists>st' url artifact.
           run supported
             (map (Recorder_timeslice r) bs @ [Click_stop, Recorder_stop_task r fin]) st
             = Some st' \<and>
           previewUrl st' = Some url \<and>
           lookup (object_urls st') url = Some (Some artifact) \<and>
           blob_bytes artifact
             = concat (map blob_bytes (chunks mr)) @ concat (map blob_bytes bs) @ blob_bytes fin \<and>
           blob_type artifact = getMimeType supported \<and>
           (chunks mr = [] \<and> (\<forall>b \<in> set bs. blob_size b = 0) \<and> blob_size fin = 0
              \<longrightarrow> blob_size artifact = 0) \<and>
           console st' = console st \<and>
           rejections st' = rejections st))"
proof -
  let ?a = "new_Blob (chunks mr) (getMimeType supported)"
  have 1: "\<exists>url artifact.
        previewUrl (onstop supported r st) = Some url \<and>
        lookup (object_urls (onstop supported r st)) url = Some (Some artifact) \<and>
        blob_bytes artifact = concat (map blob_bytes (chunks mr)) \<and>
        blob_type artifact = getMimeType supported \<and>
        (chunks mr = [] \<longrightarrow> blob_size artifact = 0)"
    using assms
    by (intro exI [of _ "length (object_urls st)"] exI [of _ ?a])
       (simp add: onstop_artifact lookup_snoc new_Blob_def blob_size_def)
  have 2: "reachable supported st \<longrightarrow> mimeType mr = getMimeType supported"
  proof
    assume "reachable supported st"
    then have "list_all (recorder_ok supported) (recorders st)"
      using objects_inv_reachable by (simp add: objects_inv_def)
    from list_all_lookup [OF this assms] show "mimeType mr = getMimeType supported"
      by (simp add: recorder_ok_def)
  qed
  let ?mr = "mr\<lparr>chunks := chunks mr @ filter (\<lambda>b. 0 < blob_size b) bs\<rparr>"
  let ?end = "recorder_stop_task supported r fin (stopRecording (ticks r bs st))"
  have l: "lookup (recorders (ticks r bs st)) r = Some ?mr"
    using assms by (rule ticks_recorder)
  from end_artifact(1) [OF l, of supported fin] obtain url artifact where
    u: "previewUrl ?end = Some url" "lookup (object_urls ?end) url = Some (Some artifact)"
       "blob_type artifact = getMimeType supported"
    and b: "blob_bytes artifact = concat (map blob_bytes (chunks ?mr)) @ blob_bytes fin"
    by blast
  from b have b': "blob_bytes artifact
      = concat (map blob_bytes (chunks mr)) @ concat (map blob_bytes bs) @ blob_bytes fin"
    by (simp add: concat_bytes_filter)
  have z: "chunks mr = [] \<and> (\<forall>b \<in> set bs. blob_size b = 0) \<and> blob_size fin = 0
      \<longrightarrow> blob_size artifact = 0"
    using b' by (simp add: blob_size_def)
  from end_artifact(2,3) [OF l, of supported fin]
  have c: "console ?end = console st" "rejections ?end = rejections st"
    by (simp_all add: ticks_frame)
  have 3: "isRecording st \<and> mediaRecorderRef st = Some r \<and> mr_state mr = recording \<longrightarrow>
        (\<exists>st' url artifact.
           run supported
             (map (Recorder_timeslice r) bs @ [Click_stop, Recorder_stop_task r fin]) st
             = Some st' \<and>
           previewUrl st' = Some url \<and>
           lookup (object_urls st') url = Some (Some artifact) \<and>
           blob_bytes artifact
             = concat (map blob_bytes (chunks mr)) @ concat (map blob_bytes bs) @ blob_bytes fin \<and>
           blob_type artifact = getMimeType supported \<and>
           (chunks mr = [] \<and> (\<forall>b \<in> set bs. blob_size b = 0) \<and> blob_size fin = 0
              \<longrightarrow> blob_size artifact = 0) \<and>
           console st' = console st \<and>
           rejections st' = rejections st)"
  proof
    assume a: "isRecording st \<and> mediaRecorderRef st = Some r \<and> mr_state mr = recording"
    then have a1: "isRecording st" and a2: "mediaRecorderRef st = Some r"
      and a3: "mr_state mr = recording"
      by simp_all
    have "run supported
        (map (Recorder_timeslice r) bs @ [Click_stop, Recorder_stop_task r fin]) st = Some ?end"
      by (rule run_recording_and_end [OF a1 a2 assms a3])
    with u b' z c show "\<exists>st' url artifact.
           run supported
             (map (Recorder_timeslice r) bs @ [Click_stop, Recorder_stop_task r fin]) st
             = Some st' \<and>
           previewUrl st' = Some url \<and>
           lookup (object_urls st') url = Some (Some artifact) \<and>
           blob_bytes artifact
             = concat (map blob_bytes (chunks mr)) @ concat (map blob_bytes bs) @ blob_bytes fin \<and>
           blob_type artifact = getMimeType supported \<and>
           (chunks mr = [] \<and> (\<forall>b \<in> set bs. blob_size b = 0) \<and> blob_size fin = 0
              \<longrightarrow> blob_size artifact = 0) \<and>
           console st' = console st \<and>
           rejections st' = rejections st"
      by (intro exI [of _ ?end] exI [of _ url] exI [of _ artifact]) simp
  qed
  from assms have 5: "recordedChunks (onstop supported r st) = chunks mr"
    by (simp add: onstop_artifact)
  show ?thesis
    by (intro conjI) (rule 1 5 2 3)+
qed

theorem artifact_is_concatenation_of_chunks_witness:
  "(\<exists>st' url.
      run all_supported
        [Recorder_timeslice 0 empty_chunk, Recorder_timeslice 0 chunk_b, Click_stop,
         Recorder_stop_task 0 chunk_b] recording_example = Some st' \<and>
      previewUrl st' = Some url \<and>
      lookup (object_urls st') url
        = Some (Some \<lparr>blob_bytes = [26, 69, 223, 223],
                       blob_type = ''video/webm;codecs=vp8,opus''\<rparr>)) \<and>
   (\<exists>st' url artifact.
      run all_supported [Click_stop, Recorder_stop_task 0 empty_chunk] started_example
        = Some st' \<and>
      previewUrl st' = Some url \<and>
      lookup (object_urls st') url = Some (Some artifact) \<and>
      blob_size artifact = 0 \<and> console st' = [])"
proof -
  let ?mr = "\<lparr>mr_state = recording, mr_stream = 0, mimeType = ''video/webm;codecs=vp8,opus'',
              chunks = [chunk_a], stop_queued = False\<rparr>"
  let ?fresh = "\<lparr>mr_state = recording, mr_stream = 0,
                 mimeType = ''video/webm;codecs=vp8,opus'', chunks = [], stop_queued = False\<rparr>"
  have m: "getMimeType all_supported = ''video/webm;codecs=vp8,opus''" by code_simp
  have h: "lookup (recorders recording_example) 0 = Some ?mr" by code_simp
  have h0: "lookup (recorders started_example) 0 = Some ?fresh" by code_simp
  have r: "isRecording recording_example \<and> mediaRecorderRef recording_example = Some 0 \<and>
      mr_state ?mr = recording"
    by code_simp
  have r0: "isRecording started_example \<and> mediaRecorderRef started_example = Some 0 \<and>
      mr_state ?fresh = recording"
    by code_simp
  have c0: "console started_example = []" by code_simp
  have z: "blob_size empty_chunk = 0" by code_simp
  have e: "map (Recorder_timeslice 0) [empty_chunk, chunk_b] @
        [Click_stop, Recorder_stop_task 0 chunk_b]
      = [Recorder_timeslice 0 empty_chunk, Recorder_timeslice 0 chunk_b, Click_stop,
         Recorder_stop_task 0 chunk_b]"
    "map (Recorder_timeslice 0) [] @ [Click_stop, Recorder_stop_task 0 empty_chunk]
      = [Click_stop, Recorder_stop_task 0 empty_chunk]"
    by simp_all
  note t = artifact_is_concatenation_of_chunks
    [OF h, of all_supported "[empty_chunk, chunk_b]" chunk_b, unfolded e]
  note t0 = artifact_is_concatenation_of_chunks
    [OF h0, of all_supported "[]" empty_chunk, unfolded e]
  from t r obtain st' url artifact where
    u: "run all_supported
        [Recorder_timeslice 0 empty_chunk, Recorder_timeslice 0 chunk_b, Click_stop,
         Recorder_stop_task 0 chunk_b] recording_example = Some st'"
       "previewUrl st' = Some url" "lookup (object_urls st') url = Some (Some artifact)"
    and a: "blob_bytes artifact
        = concat (map blob_bytes (chunks ?mr)) @
          concat (map blob_bytes [empty_chunk, chunk_b]) @ blob_bytes chunk_b"
       "blob_type artifact = getMimeType all_supported"
    by blast
  from a m have "artifact = \<lparr>blob_bytes = [26, 69, 223, 223],
                              blob_type = ''video/webm;codecs=vp8,opus''\<rparr>"
    by (cases artifact) (simp add: chunk_a_def chunk_b_def empty_chunk_def)
  with u have 1: "\<exists>st' url.
      run all_supported
        [Recorder_timeslice 0 empty_chunk, Recorder_timeslice 0 chunk_b, Click_stop,
         Recorder_stop_task 0 chunk_b] recording_example = Some st' \<and>
      previewUrl st' = Some url \<and>
      lookup (object_urls st') url
        = Some (Some \<lparr>blob_bytes = [26, 69, 223, 223],
                       blob_type = ''video/webm;codecs=vp8,opus''\<rparr>)"
    by (intro exI [of _ st'] exI [of _ url]) simp
  from t0 r0 obtain st0 url0 artifact0 where
    u0: "run all_supported [Click_stop, Recorder_stop_task 0 empty_chunk] started_example
          = Some st0"
       "previewUrl st0 = Some url0" "lookup (object_urls st0) url0 = Some (Some artifact0)"
       "console st0 = console started_example"
    and a0: "chunks ?fresh = [] \<and> (\<forall>b \<in> set []. blob_size b = 0) \<and> blob_size empty_chunk = 0
        \<longrightarrow> blob_size artifact0 = 0"
    by blast
  from a0 z have "blob_size artifact0 = 0" by simp
  with u0 c0 have 2: "\<exists>st' url artifact.
      run all_supported [Click_stop, Recorder_stop_task 0 empty_chunk] started_example
        = Some st' \<and>
      previewUrl st' = Some url \<and>
      lookup (object_urls st') url = Some (Some artifact) \<and>
      blob_size artifact = 0 \<and> console st' = []"
    by (intro exI [of _ st0] exI [of _ url0] exI [of _ artifact0]) simp
  from 1 2 show ?thesis by (rule conjI)
qed

section \<open>The idle state\<close>

lemma resetRecording_fields:
  "isRecording (resetRecording st) = isRecording st"
  "recordingDuration (resetRecording st) = recordingDuration st"
  "previewUrl (resetRecording st) = None"
  "recordedChunks (resetRecording st) = []"
  by (simp_all add: resetRecording_def Let_def revokeObjectURL_def split: option.splits)

lemma run_end_and_reset:
  assumes "isRecording st" and "mediaRecorderRef st = Some r"
    and "lookup (recorders st) r = Some mr" and "mr_state mr = recording"
  shows "run supported [Click_stop, Recorder_stop_task r fin, Click_reset] st
           = Some (resetRecording (recorder_stop_task supported r fin (stopRecording st)))"
proof -
  have "previewUrl (recorder_stop_task supported r fin (stopRecording st)) \<noteq> None"
    by (simp add: recorder_stop_task_def onstop_artifact)
  then have "run supported [Click_reset] (recorder_stop_task supported r fin (stopRecording st))
      = Some (resetRecording (recorder_stop_task supported r fin (stopRecording st)))"
    by simp
  with run_end [OF assms, of supported fin]
    run_append [of supported "[Click_stop, Recorder_stop_task r fin]" "[Click_reset]" st]
  show ?thesis by simp
qed

lemma recorder_buffer_after_start:
  "supported (getMimeType supported) \<Longrightarrow>
   recorder_buffer (startRecording_resume supported ty (Inr tracks) st) = []"
  by (simp add: startRecording_resume_def Let_def recorder_buffer_def lookup_snoc)

text \<open>
  C6, as amended. With the status read off the state as the component renders it
  (recording while \<^verbatim>\<open>isRecording\<close>, stopped while a preview exists, idle otherwise): in
  every reachable idle state the recorded chunks of the component's state
  (\<^verbatim>\<open>recordedChunks\<close>) are empty and the duration is zero. A recording that is ended
  (\<^verbatim>\<open>stopRecording\<close>, then the task it queued) and then reset is idle with no recorded chunks
  and duration zero, however many chunks it had; and from a state that is recording with
  the recorder of \<^verbatim>\<open>mediaRecorderRef\<close> these three events can happen one after the other.
  The array that the recorder's handlers fill is another matter: a start installs a
  recorder whose array is empty, and that is all that is said of it.
\<close>

theorem idle_state_has_no_recorded_chunks_and_zero_duration:
  "(reachable supported st \<longrightarrow> status_of st = Idle \<longrightarrow>
      recordedChunks st = [] \<and> recordingDuration st = 0) \<and>
   (isRecording st1 \<longrightarrow> mediaRecorderRef st1 = Some r \<longrightarrow>
      status_of (resetRecording (recorder_stop_task supported r fin (stopRecording st1))) = Idle \<and>
      recordedChunks (resetRecording (recorder_stop_task supported r fin (stopRecording st1))) = [] \<and>
      recordingDuration (resetRecording (recorder_stop_task supported r fin (stopRecording st1))) = 0) \<and>
   (isRecording st1 \<and> mediaRecorderRef st1 = Some r \<and> lookup (recorders st1) r = Some mr \<and>
    mr_state mr = recording \<longrightarrow>
      run supported [Click_stop, Recorder_stop_task r fin, Click_reset] st1
        = Some (resetRecording (recorder_stop_task supported r fin (stopRecording st1)))) \<and>
   (supported (getMimeType supported) \<longrightarrow>
      recorder_buffer (startRecording_resume supported ty (Inr tracks) st2) = [])"
proof -
  have 1: "reachable supported st \<longrightarrow> status_of st = Idle \<longrightarrow>
      recordedChunks st = [] \<and> recordingDuration st = 0"
  proof (intro impI)
    assume "reachable supported st" and idle: "status_of st = Idle"
    then have "timer_inv st" by (simp add: timer_inv_reachable)
    moreover from idle have "\<not> isRecording st" "previewUrl st = None"
      by (auto simp: status_of_def split: if_splits)
    ultimately show "recordedChunks st = [] \<and> recordingDuration st = 0"
      by (simp add: timer_inv_def)
  qed
  let ?stopped = "stopRecording st1"
  let ?ended = "recorder_stop_task supported r fin ?stopped"
  have 2: "isRecording st1 \<longrightarrow> mediaRecorderRef st1 = Some r \<longrightarrow>
      status_of (resetRecording ?ended) = Idle \<and> recordedChunks (resetRecording ?ended) = [] \<and>
      recordingDuration (resetRecording ?ended) = 0"
  proof (intro impI)
    assume a: "isRecording st1" "mediaRecorderRef st1 = Some r"
    then have "\<not> isRecording ?stopped" "recordingDuration ?stopped = 0"
      by (simp_all add: stopRecording_def mr_stop_def setIsRecording_def timer_effect_def
            timer_cleanup_def clearInterval_def split: option.splits)
    then have "\<not> isRecording ?ended" "recordingDuration ?ended = 0"
      by (simp_all add: recorder_stop_task_def onstop_artifact ondataavailable_frame)
    then show "status_of (resetRecording ?ended) = Idle \<and>
        recordedChunks (resetRecording ?ended) = [] \<and>
        recordingDuration (resetRecording ?ended) = 0"
      by (simp add: status_of_def resetRecording_fields)
  qed
  have 3: "isRecording st1 \<and> mediaRecorderRef st1 = Some r \<and>
      lookup (recorders st1) r = Some mr \<and> mr_state mr = recording \<longrightarrow>
      run supported [Click_stop, Recorder_stop_task r fin, Click_reset] st1
        = Some (resetRecording ?ended)"
  proof
    assume "isRecording st1 \<and> mediaRecorderRef st1 = Some r \<and>
      lookup (recorders st1) r = Some mr \<and> mr_state mr = recording"
    then have a: "isRecording st1" "mediaRecorderRef st1 = Some r"
      "lookup (recorders st1) r = Some mr" "mr_state mr = recording"
      by simp_all
    show "run supported [Click_stop, Recorder_stop_task r fin, Click_reset] st1
        = Some (resetRecording ?ended)"
      by (rule run_end_and_reset [OF a])
  qed
  have 4: "supported (getMimeType supported) \<longrightarrow>
      recorder_buffer (startRecording_resume supported ty (Inr tracks) st2) = []"
    by (simp add: recorder_buffer_after_start)
  show ?thesis
    by (intro conjI) (rule 1 2 3 4)+
qed

theorem idle_state_has_no_recorded_chunks_and_zero_duration_witness:
  "status_of (state_after [Click_record webcam, Media_settled 0 (Inl permission_denied)]) = Idle \<and>
   recordedChunks (state_after [Click_record webcam, Media_settled 0 (Inl permission_denied)]) = [] \<and>
   recordingDuration (state_after [Click_record webcam, Media_settled 0 (Inl permission_denied)]) = 0 \<and>
   recordingDuration recording_example = 1 \<and>
   map chunks (recorders recording_example) = [[chunk_a]] \<and>
   status_of (resetRecording (recorder_stop_task all_supported 0 chunk_b
                (stopRecording recording_example))) = Idle \<and>
   recordedChunks (resetRecording (recorder_stop_task all_supported 0 chunk_b
                (stopRecording recording_example))) = [] \<and>
   recordingDuration (resetRecording (recorder_stop_task all_supported 0 chunk_b
                (stopRecording recording_example))) = 0 \<and>
   run all_supported [Click_stop, Recorder_stop_task 0 chunk_b, Click_reset] recording_example
     = Some (resetRecording (recorder_stop_task all_supported 0 chunk_b
               (stopRecording recording_example))) \<and>
   recorder_buffer (startRecording_resume all_supported webcam (Inr camera_tracks) initial_app) = []"
proof -
  let ?d = "state_after [Click_record webcam, Media_settled 0 (Inl permission_denied)]"
  let ?mr = "\<lparr>mr_state = recording, mr_stream = 0, mimeType = ''video/webm;codecs=vp8,opus'',
              chunks = [chunk_a], stop_queued = False\<rparr>"
  have i: "status_of ?d = Idle" by code_simp
  have e: "isRecording recording_example" "mediaRecorderRef recording_example = Some 0"
    "lookup (recorders recording_example) 0 = Some ?mr" "mr_state ?mr = recording"
    by code_simp+
  have v: "recordingDuration recording_example = 1"
    "map chunks (recorders recording_example) = [[chunk_a]]"
    "all_supported (getMimeType all_supported)"
    by code_simp+
  note t = idle_state_has_no_recorded_chunks_and_zero_duration
    [of all_supported ?d recording_example 0 chunk_b ?mr webcam camera_tracks initial_app]
  from t reachable_state_after [of "[Click_record webcam, Media_settled 0 (Inl permission_denied)]"] i
  have 1: "recordedChunks ?d = [] \<and> recordingDuration ?d = 0" by blast
  from t e(1,2) have 2:
    "status_of (resetRecording (recorder_stop_task all_supported 0 chunk_b
                (stopRecording recording_example))) = Idle \<and>
     recordedChunks (resetRecording (recorder_stop_task all_supported 0 chunk_b
                (stopRecording recording_example))) = [] \<and>
     recordingDuration (resetRecording (recorder_stop_task all_supported 0 chunk_b
                (stopRecording recording_example))) = 0"
    by blast
  from t e have 3:
    "run all_supported [Click_stop, Recorder_stop_task 0 chunk_b, Click_reset] recording_example
     = Some (resetRecording (recorder_stop_task all_supported 0 chunk_b
               (stopRecording recording_example)))"
    by blast
  from t v(3) have 4:
    "recorder_buffer (startRecording_resume all_supported webcam (Inr camera_tracks) initial_app) = []"
    by blast
  from i 1 2 3 4 v(1,2) show ?thesis by simp
qed

text \<open>
  The claim as first stated speaks of the chunk buffer, and the buffer that the ticks fill
  is the recorder's array. After a recording with one chunk, the click on stop gives a
  state that is idle, with the record buttons shown, while that array still holds the
  chunk and the recorder's task is pending. And after the task and a reset the state is
  idle with no recorded chunks, while the array of the recorder in \<^verbatim>\<open>mediaRecorderRef\<close>
  holds both chunks of the recording: nothing empties it.
\<close>

theorem idle_state_with_chunks_in_recorder_buffer:
  "(case run all_supported
           [Click_record webcam, Media_settled 0 (Inr camera_tracks), Socket_opened 0,
            Recorder_timeslice 0 chunk_a, Conversion_done 0, Interval_fired 1, Click_stop]
           initial_app of
      None \<Rightarrow> False
    | Some st \<Rightarrow>
        status_of st = Idle \<and> start_buttons (render st) \<and> recorder_buffer st = [chunk_a] \<and>
        map stop_queued (recorders st) = [True]) \<and>
   (case run all_supported
           [Click_record webcam, Media_settled 0 (Inr camera_tracks), Socket_opened 0,
            Recorder_timeslice 0 chunk_a, Conversion_done 0, Interval_fired 1, Click_stop,
            Recorder_stop_task 0 chunk_b, Click_reset]
           initial_app of
      None \<Rightarrow> False
    | Some st \<Rightarrow>
        status_of st = Idle \<and> recordedChunks st = [] \<and>
        recorder_buffer st = [chunk_a, chunk_b])"
  by code_simp

section \<open>Stopping twice\<close>

text \<open>
  C7. A second \<^verbatim>\<open>stopRecording\<close> right after the first changes nothing, also when the task
  that the first one queued has run in between; \<^verbatim>\<open>stopRecording\<close> without a recorder or
  while not recording changes nothing. In \<^verbatim>\<open>ImprovedVideoChat\<close>, a second
  \<^verbatim>\<open>stopMediaTracks\<close> or \<^verbatim>\<open>stopRecording\<close> changes nothing, and \<^verbatim>\<open>stopMediaTracks\<close> without
  a stream changes nothing.
\<close>

theorem stop_twice_is_noop:
  "stopRecording (stopRecording st) = stopRecording st \<and>
   stopRecording (recorder_stop_task supported r fin (stopRecording st))
     = recorder_stop_task supported r fin (stopRecording st) \<and>
   (mediaRecorderRef st = None \<or> \<not> isRecording st \<longrightarrow> stopRecording st = st) \<and>
   stopMediaTracks (stopMediaTracks ist) = stopMediaTracks ist \<and>
   (i_streamRef ist = None \<longrightarrow> stopMediaTracks ist = ist) \<and>
   i_stopRecording (i_stopRecording ist) = i_stopRecording ist"
proof -
  have idle: "stopRecording s = s" if "mediaRecorderRef s = None \<or> \<not> isRecording s" for s
    using that by (auto simp: stopRecording_def split: option.splits)
  have after: "mediaRecorderRef (stopRecording st) = None \<or> \<not> isRecording (stopRecording st)"
    by (simp add: stopRecording_def split: option.splits)
  then have after_task:
    "mediaRecorderRef (recorder_stop_task supported r fin (stopRecording st)) = None \<or>
     \<not> isRecording (recorder_stop_task supported r fin (stopRecording st))"
    by (simp add: recorder_stop_task_def onstop_artifact ondataavailable_frame
          onstop_def Let_def basic_ops split: option.splits prod.splits)
  have tracks: "stopMediaTracks s = s" if "i_streamRef s = None" for s
    using that by (simp add: stopMediaTracks_def)
  have "i_streamRef (stopMediaTracks ist) = None"
    by (simp add: stopMediaTracks_def split: option.splits)
  then have t2: "stopMediaTracks (stopMediaTracks ist) = stopMediaTracks ist"
    by (rule tracks)
  have set_same: "i_setIsRecording False s = s" if "\<not> i_isRecording s" for s
    using that by (simp add: i_setIsRecording_def)
  have fields: "i_streamRef (i_stopRecording ist) = None"
    "\<not> i_isRecording (i_stopRecording ist)"
    "i_video_srcObject (i_stopRecording ist) = None"
    "i_recordingTime (i_stopRecording ist) = 0"
    "\<not> i_isMuted (i_stopRecording ist)"
    by (simp_all add: i_stopRecording_def Let_def stopMediaTracks_def i_setIsRecording_def
          i_setIsMuted_def i_timer_effect_def i_timer_cleanup_def split: option.splits)
  have "i_stopRecording s = s"
    if "i_streamRef s = None" "\<not> i_isRecording s" "i_video_srcObject s = None"
      "i_recordingTime s = 0" "\<not> i_isMuted s" for s
    using that by (simp add: i_stopRecording_def Let_def tracks set_same i_setIsMuted_def)
  from this [OF fields] idle [OF after] idle [OF after_task] idle [of st] t2 tracks [of ist]
  show ?thesis by blast
qed

theorem stop_twice_is_noop_witness:
  "stopRecording initial_app = initial_app \<and>
   stopMediaTracks initial_improved_chat = initial_improved_chat \<and>
   isRecording recording_example \<and> \<not> isRecording (stopRecording recording_example) \<and>
   stopRecording (stopRecording recording_example) = stopRecording recording_example \<and>
   i_isRecording chat_example \<and>
   i_stopRecording (i_stopRecording chat_example) = i_stopRecording chat_example"
proof -
  have a: "mediaRecorderRef initial_app = None" "i_streamRef initial_improved_chat = None"
    "isRecording recording_example" "\<not> isRecording (stopRecording recording_example)"
    "i_isRecording chat_example"
    by code_simp+
  note t1 = stop_twice_is_noop [of initial_app all_supported 0 empty_chunk initial_improved_chat]
  note t2 = stop_twice_is_noop [of recording_example all_supported 0 empty_chunk chat_example]
  from t1 t2 a show ?thesis by blast
qed

section \<open>Starting a capture\<close>

lemma startRecording_request_frame:
  "streams (startRecording_request ty st) = streams st"
  "streamRef (startRecording_request ty st) = streamRef st"
  "recorders (startRecording_request ty st) = recorders st"
  "intervals (startRecording_request ty st) = intervals st"
  "isRecording (startRecording_request ty st) = isRecording st"
  "recordingDuration (startRecording_request ty st) = recordingDuration st"
  "recordedChunks (startRecording_request ty st) = recordedChunks st"
  "console (startRecording_request ty st) = console st"
  "previewUrl (startRecording_request ty st) = None"
  by (simp_all add: startRecording_request_def Let_def basic_ops split: option.splits)

text \<open>
  C8, as amended. Starting tears nothing down. \<^verbatim>\<open>startRecording\<close> leaves every stream and
  every recorder that exists as it is, adds the stream the platform delivers, and overwrites
  \<^verbatim>\<open>streamRef\<close> with it. What limits the sessions is the rendering: the record buttons are
  shown, and a start can be clicked, only while \<^verbatim>\<open>isRecording\<close> is false and no preview
  exists.
\<close>

theorem start_tears_nothing_down:
  "streams (startRecording_request ty st) = streams st \<and>
   streamRef (startRecording_request ty st) = streamRef st \<and>
   recorders (startRecording_request ty st) = recorders st \<and>
   streams (startRecording_resume supported ty (Inr tracks) st) = streams st @ [tracks] \<and>
   streamRef (startRecording_resume supported ty (Inr tracks) st) = Some (length (streams st)) \<and>
   take (length (recorders st)) (recorders (startRecording_resume supported ty (Inr tracks) st))
     = recorders st \<and>
   start_buttons (render st) = (\<not> isRecording st \<and> previewUrl st = None) \<and>
   (step supported (Click_record ty) st \<noteq> None) = start_buttons (render st)"
  by (simp add: startRecording_request_frame startRecording_resume_def Let_def
        console_error_def render_def)

text \<open>
  The claim as first stated fails in two runs. Two clicks on the record buttons before the
  platform has answered give two live streams with a recorder on each. And a click on a
  record button after a stop, before the stopped recorder's task has run, finds the first
  stream still live; the new stream is acquired and the first is left as it was.
\<close>

theorem second_start_leaves_first_session_live:
  "(case run all_supported
           [Click_record webcam, Click_record screen,
            Media_settled 0 (Inr camera_tracks), Media_settled 0 (Inr display_tracks)]
           initial_app of
      None \<Rightarrow> False
    | Some st \<Rightarrow>
        streams st = [camera_tracks, display_tracks] \<and> streamRef st = Some 1 \<and>
        list_all (\<lambda>t. track_state t = live) (concat (streams st)) \<and>
        map mr_state (recorders st) = [recording, recording] \<and>
        map mr_stream (recorders st) = [0, 1]) \<and>
   (case run all_supported
           [Click_record webcam, Media_settled 0 (Inr camera_tracks), Click_stop,
            Click_record screen]
           initial_app of
      None \<Rightarrow> False
    | Some st \<Rightarrow>
        streams st = [camera_tracks] \<and> streamRef st = Some 0 \<and>
        (case step all_supported (Media_settled 0 (Inr display_tracks)) st of
           None \<Rightarrow> False
         | Some st' \<Rightarrow>
             streams st' = [camera_tracks, display_tracks] \<and> streamRef st' = Some 1 \<and>
             list_all (\<lambda>t. track_state t = live) (concat (streams st'))))"
  by code_simp

section \<open>Muting\<close>





section \<open>A start that the platform rejects\<close>

lemma startRecording_rejected:
  "startRecording supported ty (Inl err) st =
     (let st1 = startRecording_request ty st
      in st1\<lparr>media_requests := butlast (media_requests st1),
             console := console st1 @ [Log_thrown ''Error accessing media devices:'' err]\<rparr>)"
  by (simp add: startRecording_def startRecording_resume_def Let_def console_error_def)

text \<open>
  C2, as amended. When the platform rejects the request, the recorder component only logs
  the error to the console: the rest of \<^verbatim>\<open>startRecording\<close> changes nothing but the console, so
  what the component renders is what it rendered before and the message is not shown. The
  status is idle unless a recording was already running, and no stream, recorder or interval
  is created. \<^verbatim>\<open>ImprovedVideoChat\<close> logs the error and stores its message (for an
  \<^verbatim>\<open>Error\<close>, the platform's message) in \<^verbatim>\<open>streamError\<close>; the overlay shows the message
  while not recording, unless the message is the empty string, for which the camera icon
  is shown as if there were no error. Nothing else of its state changes.
\<close>

theorem rejected_start_stays_idle:
  "startRecording_resume supported ty (Inl err) st
     = st\<lparr>console := console st @ [Log_thrown ''Error accessing media devices:'' err]\<rparr> \<and>
   render (startRecording_resume supported ty (Inl err) st) = render st \<and>
   status_of (startRecording supported ty (Inl err) st)
     = (if isRecording st then Recording else Idle) \<and>
   isRecording (startRecording supported ty (Inl err) st) = isRecording st \<and>
   streams (startRecording supported ty (Inl err) st) = streams st \<and>
   streamRef (startRecording supported ty (Inl err) st) = streamRef st \<and>
   recorders (startRecording supported ty (Inl err) st) = recorders st \<and>
   intervals (startRecording supported ty (Inl err) st) = intervals st \<and>
   media_requests (startRecording supported ty (Inl err) st) = media_requests st \<and>
   i_startRecording (Inl err) ist
     = ist\<lparr>i_console := i_console ist @ [Log_thrown ''Error accessing camera:'' err],
           i_streamError := Some (error_message err)\<rparr> \<and>
   error_message (Error_obj name message) = message \<and>
   error_overlay (i_startRecording (Inl err) ist)
     = (if i_isRecording ist \<or> error_message err = [] then None
        else Some (error_message err))"
  by (simp add: startRecording_rejected startRecording_request_frame Let_def status_of_def
        startRecording_resume_def console_error_def render_def
        i_startRecording_def i_startRecording_resume_def i_startRecording_request_def
        error_message_def error_overlay_def)
     (simp add: startRecording_request_def Let_def basic_ops split: option.splits)

text \<open>
  The claim as first stated fails for the recorder component: after a rejected start from
  the first mount it renders what it rendered before, and the platform's message is in the
  console only.
\<close>

theorem rejected_start_shows_nothing_in_recorder:
  "(case run all_supported [Click_record webcam, Media_settled 0 (Inl permission_denied)]
          initial_app of
      None \<Rightarrow> False
    | Some st \<Rightarrow>
        render st = render initial_app \<and>
        status_text (render st) = Ready_to_record \<and>
        console st = [Log_thrown ''Error accessing media devices:'' permission_denied] \<and>
        map readyState (sockets st) = [CONNECTING])"
  by code_simp

end
